theory Spec2Isabelle
  imports Complex_Main "HOL-Library.Word" "HOL-Library.Sublist"
begin

unbundle bit_operations_syntax

section \<open>Data model of the fade controller (main/app/fade\_controller.c)\<close>

text \<open>
  The controller keeps one global session \<open>s_fade\<close>.  Every function below takes the
  session and returns the updated one.  The monotonic clock \<open>esp_timer_get_time()\<close> is an
  input: each call site of the clock is a parameter of the function that contains it
  (microseconds, an \<open>int64_t\<close> that is modelled as \<open>int\<close>).  A \<open>NULL\<close> pointer argument is
  \<open>None\<close>.
\<close>

type_synonym u8 = "8 word"
type_synonym u32 = "32 word"
type_synonym u64 = "64 word"

text \<open>
  Modelled from the spec: the header \<open>fade_controller.h\<close> with the declarations of
  \<open>light_param_t\<close>, \<open>LIGHT_PARAM_COUNT\<close>, \<open>fade_state_t\<close>, \<open>lighting_state_t\<close>,
  \<open>fade_params_t\<close> and \<open>fade_progress_t\<close> is not among the sources.  The specification gives
  five channels (brightness, red, green, blue, white) of unsigned 8-bit values, the states
  IDLE, FADING and COMPLETE, the parameters \<open>{target, duration}\<close> and the progress report
  \<open>{state, current, elapsedMs, totalMs, percent}\<close>; the field and constant names are those
  used by \<open>fade_controller.c\<close>.

  \<open>light_param_t\<close>: the enumeration values are array indices.  Their order is the one of the
  name table in \<open>transmit_param\<close> (R, G, B, W, Brightness), with \<open>LIGHT_PARAM_COUNT = 5\<close>.
\<close>

datatype light_param =
  LIGHT_PARAM_RED | LIGHT_PARAM_GREEN | LIGHT_PARAM_BLUE | LIGHT_PARAM_WHITE | LIGHT_PARAM_BRIGHTNESS

fun param_index :: "light_param \<Rightarrow> nat" where
  "param_index LIGHT_PARAM_RED = 0"
| "param_index LIGHT_PARAM_GREEN = 1"
| "param_index LIGHT_PARAM_BLUE = 2"
| "param_index LIGHT_PARAM_WHITE = 3"
| "param_index LIGHT_PARAM_BRIGHTNESS = 4"

text \<open>The values \<open>(light_param_t)i\<close> for \<open>i = 0 .. LIGHT_PARAM_COUNT - 1\<close>, in loop order.\<close>

definition all_params :: "light_param list" where
  "all_params = [LIGHT_PARAM_RED, LIGHT_PARAM_GREEN, LIGHT_PARAM_BLUE, LIGHT_PARAM_WHITE,
     LIGHT_PARAM_BRIGHTNESS]"

definition TX_ORDER :: "light_param list" where
  "TX_ORDER = [LIGHT_PARAM_BRIGHTNESS, LIGHT_PARAM_RED, LIGHT_PARAM_GREEN, LIGHT_PARAM_BLUE,
     LIGHT_PARAM_WHITE]"

definition MIN_TX_INTERVAL_MS :: int where
  "MIN_TX_INTERVAL_MS = 10"

datatype fade_state = FADE_STATE_IDLE | FADE_STATE_FADING | FADE_STATE_COMPLETE

text \<open>The result codes of the platform (\<open>esp_err_t\<close>) that the sources use, and \<open>ESP_FAIL\<close>
  for any other failure.\<close>

datatype esp_err =
  ESP_OK | ESP_FAIL | ESP_ERR_INVALID_ARG | ESP_ERR_INVALID_STATE | ESP_ERR_NOT_FOUND

record lighting_state =
  brightness :: u8
  red :: u8
  green :: u8
  blue :: u8
  white :: u8

record fade_params =
  target :: lighting_state
  duration_ms :: u32

text \<open>
  \<open>fade_state_internal_t\<close>.  A \<open>float\<close> is modelled by the rational number it denotes
  (see the section on binary32 arithmetic); the array \<open>current_float\<close> is indexed by
  \<open>light_param_t\<close>.  \<open>next_param_index\<close> is an \<open>int\<close> in the source that is only ever set
  to 0 or incremented, so it is a natural number here.  The fields \<open>start\<close>, \<open>target\<close> and
  \<open>duration_ms\<close> are \<open>start_v\<close>, \<open>target_v\<close> and \<open>duration\<close>, since \<open>target\<close> and
  \<open>duration_ms\<close> name the fields of \<open>fade_params_t\<close>.
\<close>

record fade_state_internal =
  initialized :: bool
  current :: lighting_state
  state :: fade_state
  start_v :: lighting_state
  target_v :: lighting_state
  duration :: u32
  fade_start_us :: int
  last_tx_us :: int
  current_float :: "light_param \<Rightarrow> rat"
  next_param_index :: nat
  tx_pending :: bool

definition zero_lighting :: lighting_state where
  "zero_lighting = \<lparr>brightness = 0, red = 0, green = 0, blue = 0, white = 0\<rparr>"

text \<open>The session after \<open>memset(&s_fade, 0, sizeof(s_fade))\<close>.\<close>

definition zero_session :: fade_state_internal where
  "zero_session = \<lparr>initialized = False, current = zero_lighting, state = FADE_STATE_IDLE,
     start_v = zero_lighting, target_v = zero_lighting, duration = 0, fade_start_us = 0,
     last_tx_us = 0, current_float = (\<lambda>_. 0), next_param_index = 0, tx_pending = False\<rparr>"

subsection \<open>Parameter accessors\<close>

text \<open>
  The \<open>default\<close> branches of \<open>get_param\<close> and \<open>set_param\<close> are for values outside the
  enumeration; the datatype has none.
\<close>

fun get_param :: "lighting_state \<Rightarrow> light_param \<Rightarrow> u8" where
  "get_param st LIGHT_PARAM_RED = red st"
| "get_param st LIGHT_PARAM_GREEN = green st"
| "get_param st LIGHT_PARAM_BLUE = blue st"
| "get_param st LIGHT_PARAM_WHITE = white st"
| "get_param st LIGHT_PARAM_BRIGHTNESS = brightness st"

fun set_param :: "lighting_state \<Rightarrow> light_param \<Rightarrow> u8 \<Rightarrow> lighting_state" where
  "set_param st LIGHT_PARAM_RED v = st\<lparr>red := v\<rparr>"
| "set_param st LIGHT_PARAM_GREEN v = st\<lparr>green := v\<rparr>"
| "set_param st LIGHT_PARAM_BLUE v = st\<lparr>blue := v\<rparr>"
| "set_param st LIGHT_PARAM_WHITE v = st\<lparr>white := v\<rparr>"
| "set_param st LIGHT_PARAM_BRIGHTNESS v = st\<lparr>brightness := v\<rparr>"

text \<open>\<open>(float)get_param(...)\<close>: every 8-bit value is a binary32 number.\<close>

definition float_of_u8 :: "u8 \<Rightarrow> rat" where
  "float_of_u8 v = of_nat (unat v)"

section \<open>binary32 arithmetic\<close>

text \<open>
  A finite \<open>float\<close> is the rational number it denotes.  Each arithmetic operation of the
  source is the exact operation followed by \<open>fl\<close>, rounding to the nearest number with a
  24-bit significand, ties to even (IEEE 754 binary32, the default rounding mode).  The
  exponent range is not limited: the operands of this program are 8-bit and 32-bit integers
  and quotients of them, so no operation overflows or produces a subnormal number.
\<close>

definition round_half_even :: "rat \<Rightarrow> int" where
  "round_half_even q =
     (let f = \<lfloor>q\<rfloor>; r = q - of_int f
      in if r < 1 / 2 then f else if 1 / 2 < r then f + 1 else if even f then f else f + 1)"

lemma ilog2_term1: "2 \<le> (x::rat) \<Longrightarrow> 2 \<le> x / 2 \<Longrightarrow> nat \<lfloor>x / 2\<rfloor> < nat \<lfloor>x\<rfloor>"
proof -
  assume a: "2 \<le> x" "2 \<le> x / 2"
  have "x / 2 \<le> x - 1" using a by simp
  then have "\<lfloor>x / 2\<rfloor> \<le> \<lfloor>x - 1\<rfloor>" by (rule floor_mono)
  then have "\<lfloor>x / 2\<rfloor> < \<lfloor>x\<rfloor>" by simp
  moreover have "0 < \<lfloor>x\<rfloor>" using a by simp
  ultimately show ?thesis by simp
qed

lemma ilog2_term2: "2 \<le> (x::rat) \<Longrightarrow> nat \<lfloor>1 / (x / 2)\<rfloor> < nat \<lfloor>x\<rfloor> + 1"
proof -
  assume a: "2 \<le> x"
  have "2 / x \<le> 1" using a by simp
  then have "\<lfloor>2 / x\<rfloor> \<le> \<lfloor>1::rat\<rfloor>" by (rule floor_mono)
  then have b: "\<lfloor>2 / x\<rfloor> \<le> 1" by simp
  have c: "2 \<le> \<lfloor>x\<rfloor>" using a by (simp add: le_floor_iff)
  have d: "1 / (x / 2) = 2 / x" by simp
  have "nat \<lfloor>2 / x\<rfloor> \<le> 1" using b by linarith
  moreover have "2 \<le> nat \<lfloor>x\<rfloor>" using c by linarith
  ultimately show ?thesis unfolding d by linarith
qed

lemma ilog2_term3: "0 < (x::rat) \<Longrightarrow> x < 1 \<Longrightarrow> nat \<lfloor>1 / (x * 2)\<rfloor> < nat \<lfloor>1 / x\<rfloor>"
proof -
  assume a: "0 < x" "x < 1"
  define y where "y = 1 / x"
  have y1: "1 < y" using a by (simp add: y_def)
  then have f1: "1 \<le> \<lfloor>y\<rfloor>" by (simp add: le_floor_iff)
  have "y < of_int \<lfloor>y\<rfloor> + 1" by linarith
  also have "\<dots> \<le> 2 * of_int \<lfloor>y\<rfloor>" using f1 by simp
  finally have "y / 2 < of_int \<lfloor>y\<rfloor>" by simp
  then have "\<lfloor>y / 2\<rfloor> < \<lfloor>y\<rfloor>" by (simp add: floor_less_iff)
  moreover have "1 / (x * 2) = y / 2" unfolding y_def by (simp add: field_simps)
  ultimately have "\<lfloor>1 / (x * 2)\<rfloor> < \<lfloor>y\<rfloor>" by (simp only:)
  then show ?thesis using f1 unfolding y_def by linarith
qed

definition ilog2_measure :: "rat \<Rightarrow> nat" where
  "ilog2_measure x = (if 2 \<le> x then nat \<lfloor>x\<rfloor> + 1 else nat \<lfloor>1 / x\<rfloor>)"

lemma ilog2_measure_halve: "2 \<le> x \<Longrightarrow> ilog2_measure (x / 2) < ilog2_measure x"
proof (cases "2 \<le> x / 2")
  case True
  assume "2 \<le> x"
  with True ilog2_term1 [of x] show ?thesis unfolding ilog2_measure_def by (simp only: if_True) simp
next
  case False
  assume "2 \<le> x"
  with False ilog2_term2 [of x] show ?thesis unfolding ilog2_measure_def by (simp only: if_True if_False)
qed

lemma ilog2_measure_double: "0 < x \<Longrightarrow> x < 1 \<Longrightarrow> ilog2_measure (x * 2) < ilog2_measure x"
proof -
  assume a: "0 < x" "x < 1"
  then have "\<not> 2 \<le> x * 2" "\<not> 2 \<le> x" by simp_all
  with ilog2_term3 [OF a] show ?thesis unfolding ilog2_measure_def by (simp only: if_False)
qed

function ilog2 :: "rat \<Rightarrow> int" where
  "ilog2 x = (if x \<le> 0 then 0
              else if 2 \<le> x then ilog2 (x / 2) + 1
              else if x < 1 then ilog2 (x * 2) - 1
              else 0)"
  by pat_completeness auto
termination
proof (relation "measure ilog2_measure")
  show "wf (measure ilog2_measure)" by simp
next
  fix x :: rat
  assume "\<not> x \<le> 0" "2 \<le> x"
  then show "(x / 2, x) \<in> measure ilog2_measure"
    using ilog2_measure_halve [of x] by (simp only: in_measure)
next
  fix x :: rat
  assume "\<not> x \<le> 0" "\<not> 2 \<le> x" "x < 1"
  then show "(x * 2, x) \<in> measure ilog2_measure"
    using ilog2_measure_double [of x] by (simp only: in_measure not_le)
qed

declare ilog2.simps [simp del]

definition fl :: "rat \<Rightarrow> rat" where
  "fl x = (if x = 0 then 0
           else let u = 2 powi (ilog2 \<bar>x\<bar> - 23)
                in sgn x * (of_int (round_half_even (\<bar>x\<bar> / u)) * u))"

lemma ilog2_bounds: "0 < x \<Longrightarrow> 2 powi ilog2 x \<le> x \<and> x < 2 powi (ilog2 x + 1)"
proof (induction x rule: ilog2.induct)
  case (1 x)
  consider (big) "2 \<le> x" | (small) "x < 1" | (unit) "1 \<le> x" "x < 2" by linarith
  then show ?case
  proof cases
    case big
    with "1.prems" have ih: "2 powi ilog2 (x / 2) \<le> x / 2" "x / 2 < 2 powi (ilog2 (x / 2) + 1)"
      using "1.IH"(1) by auto
    have e: "ilog2 x = ilog2 (x / 2) + 1" using big "1.prems" by (subst ilog2.simps) simp
    have p: "\<And>k::int. (2::rat) powi (k + 1) = 2 powi k * 2" by (simp add: power_int_add)
    show ?thesis unfolding e p using ih unfolding p by auto
  next
    case small
    with "1.prems" have ih: "2 powi ilog2 (x * 2) \<le> x * 2" "x * 2 < 2 powi (ilog2 (x * 2) + 1)"
      using "1.IH"(2) by auto
    have e: "ilog2 x = ilog2 (x * 2) - 1" using small "1.prems" by (subst ilog2.simps) simp
    have p: "\<And>k::int. (2::rat) powi (k + 1) = 2 powi k * 2" by (simp add: power_int_add)
    have q: "(2::rat) powi ilog2 (x * 2) = 2 powi (ilog2 (x * 2) - 1) * 2"
      using p [of "ilog2 (x * 2) - 1"] by simp
    show ?thesis unfolding e using ih unfolding p q by auto
  next
    case unit
    have e: "ilog2 x = 0" using unit by (subst ilog2.simps) simp
    show ?thesis unfolding e using unit by simp
  qed
qed

lemma round_half_even_of_int [simp]: "round_half_even (of_int n) = n"
  by (simp add: round_half_even_def)

lemma round_half_even_mono: "a \<le> b \<Longrightarrow> round_half_even a \<le> round_half_even b"
proof -
  assume ab: "a \<le> b"
  have fa: "\<lfloor>a\<rfloor> \<le> \<lfloor>b\<rfloor>" using ab by (rule floor_mono)
  show ?thesis
  proof (cases "\<lfloor>a\<rfloor> = \<lfloor>b\<rfloor>")
    case True
    then show ?thesis using ab unfolding round_half_even_def Let_def by auto
  next
    case False
    with fa have "\<lfloor>a\<rfloor> + 1 \<le> \<lfloor>b\<rfloor>" by simp
    moreover have "round_half_even a \<le> \<lfloor>a\<rfloor> + 1" unfolding round_half_even_def Let_def by auto
    moreover have "\<lfloor>b\<rfloor> \<le> round_half_even b" unfolding round_half_even_def Let_def by auto
    ultimately show ?thesis by linarith
  qed
qed


lemma pow2_less_cancel: "(2::rat) powi a < 2 powi b \<Longrightarrow> a < b"
proof (rule ccontr)
  assume l: "(2::rat) powi a < 2 powi b" and "\<not> a < b"
  then have "b \<le> a" by simp
  then have "(2::rat) powi b \<le> 2 powi a" by (simp add: power_int_increasing)
  with l show False by simp
qed

lemma pow2_shift: "(2::rat) powi a = 2 powi (a - b) * 2 powi b"
  by (simp flip: power_int_add)

lemma ilog2_unique:
  assumes "0 < x" "2 powi k \<le> x" "x < 2 powi (k + 1)"
  shows "ilog2 x = k"
proof -
  note b = ilog2_bounds [OF assms(1)]
  have "(2::rat) powi ilog2 x < 2 powi (k + 1)" using b assms by linarith
  then have 1: "ilog2 x < k + 1" by (rule pow2_less_cancel)
  have "(2::rat) powi k < 2 powi (ilog2 x + 1)" using b assms by linarith
  then have 2: "k < ilog2 x + 1" by (rule pow2_less_cancel)
  from 1 2 show ?thesis by simp
qed

lemma fl_pos_eq:
  "0 < x \<Longrightarrow> fl x = of_int (round_half_even (x / 2 powi (ilog2 x - 23))) * 2 powi (ilog2 x - 23)"
  by (simp add: fl_def Let_def)

lemma scaled_range:
  assumes "0 < x"
  shows "2 ^ 23 \<le> x / 2 powi (ilog2 x - 23)" "x / 2 powi (ilog2 x - 23) < 2 ^ 24"
proof -
  note b = ilog2_bounds [OF assms]
  have u: "(0::rat) < 2 powi (ilog2 x - 23)" by simp
  have e1: "(2::rat) powi ilog2 x = 2 ^ 23 * 2 powi (ilog2 x - 23)"
    using pow2_shift [of "ilog2 x" "ilog2 x - 23"] by simp
  have e2: "(2::rat) powi (ilog2 x + 1) = 2 ^ 24 * 2 powi (ilog2 x - 23)"
    using pow2_shift [of "ilog2 x + 1" "ilog2 x - 23"] by simp
  show "2 ^ 23 \<le> x / 2 powi (ilog2 x - 23)"
    using b u unfolding e1 by (simp add: pos_le_divide_eq)
  show "x / 2 powi (ilog2 x - 23) < 2 ^ 24"
    using b u unfolding e2 by (simp add: pos_divide_less_eq)
qed

lemma fl_range:
  assumes "0 < x"
  shows "2 powi ilog2 x \<le> fl x" "fl x \<le> 2 powi (ilog2 x + 1)"
proof -
  let ?u = "(2::rat) powi (ilog2 x - 23)"
  let ?m = "round_half_even (x / ?u)"
  have u: "0 < ?u" by simp
  have "round_half_even (of_int (2 ^ 23)) \<le> ?m"
    using scaled_range(1) [OF assms] by (intro round_half_even_mono) simp
  then have lo: "2 ^ 23 \<le> ?m" by (simp only: round_half_even_of_int)
  have "?m \<le> round_half_even (of_int (2 ^ 24))"
    using scaled_range(2) [OF assms] by (intro round_half_even_mono) simp
  then have hi: "?m \<le> 2 ^ 24" by (simp only: round_half_even_of_int)
  have e1: "(2::rat) powi ilog2 x = 2 ^ 23 * ?u"
    using pow2_shift [of "ilog2 x" "ilog2 x - 23"] by simp
  have e2: "(2::rat) powi (ilog2 x + 1) = 2 ^ 24 * ?u"
    using pow2_shift [of "ilog2 x + 1" "ilog2 x - 23"] by simp
  have "(2 ^ 23 :: rat) \<le> of_int ?m" using lo by (metis of_int_le_iff of_int_numeral of_int_power)
  then show "2 powi ilog2 x \<le> fl x"
    unfolding e1 fl_pos_eq [OF assms] using u by (simp add: mult_right_mono)
  have "of_int ?m \<le> (2 ^ 24 :: rat)" using hi by (metis of_int_le_iff of_int_numeral of_int_power)
  then show "fl x \<le> 2 powi (ilog2 x + 1)"
    unfolding e2 fl_pos_eq [OF assms] using u by (simp add: mult_right_mono)
qed

lemma fl_mono_pos:
  assumes "0 < x" "x \<le> y"
  shows "fl x \<le> fl y"
proof -
  have y: "0 < y" using assms by simp
  note bx = ilog2_bounds [OF assms(1)]
  note by' = ilog2_bounds [OF y]
  have "(2::rat) powi ilog2 x < 2 powi (ilog2 y + 1)" using bx by' assms by linarith
  then have "ilog2 x < ilog2 y + 1" by (rule pow2_less_cancel)
  then have le: "ilog2 x \<le> ilog2 y" by simp
  show ?thesis
  proof (cases "ilog2 x = ilog2 y")
    case True
    let ?u = "(2::rat) powi (ilog2 y - 23)"
    have u: "0 < ?u" by simp
    have "x / ?u \<le> y / ?u" using assms u by (simp add: divide_right_mono)
    then have "round_half_even (x / ?u) \<le> round_half_even (y / ?u)" by (rule round_half_even_mono)
    then have "(of_int (round_half_even (x / ?u)) :: rat) * ?u \<le> of_int (round_half_even (y / ?u)) * ?u"
      using u by (simp add: mult_right_mono)
    then show ?thesis unfolding fl_pos_eq [OF assms(1)] fl_pos_eq [OF y] True .
  next
    case False
    with le have "ilog2 x + 1 \<le> ilog2 y" by simp
    then have "(2::rat) powi (ilog2 x + 1) \<le> 2 powi ilog2 y" by (simp add: power_int_increasing)
    with fl_range(2) [OF assms(1)] fl_range(1) [OF y] show ?thesis by linarith
  qed
qed

lemma fl_of_int:
  assumes "\<bar>n\<bar> < 2 ^ 24"
  shows "fl (of_int n) = of_int n"
proof (cases "n = 0")
  case True
  then show ?thesis by (simp add: fl_def)
next
  case False
  let ?a = "\<bar>of_int n\<bar> :: rat"
  have a: "0 < ?a" using False by simp
  note b = ilog2_bounds [OF a]
  have "?a < 2 powi 24" using assms by (metis of_int_abs of_int_less_iff of_int_numeral of_int_power power_int_numeral)
  with b have "(2::rat) powi ilog2 ?a < 2 powi 24" by linarith
  then have "ilog2 ?a < 24" by (rule pow2_less_cancel)
  then have k: "0 \<le> 23 - ilog2 ?a" by simp
  define k where "k = nat (23 - ilog2 ?a)"
  have ue: "(2::rat) powi (ilog2 ?a - 23) = 1 / 2 ^ k"
    using k power_int_minus_divide [of "2::rat" "23 - ilog2 ?a"] by (simp add: k_def power_int_nonneg_exp)
  have "?a / (1 / 2 ^ k) = of_int (\<bar>n\<bar> * 2 ^ k)" by simp
  then have r: "round_half_even (?a / (1 / 2 ^ k)) = \<bar>n\<bar> * 2 ^ k" by (simp only: round_half_even_of_int)
  have "fl (of_int n) = sgn (of_int n) * (of_int (\<bar>n\<bar> * 2 ^ k) * (1 / 2 ^ k))"
    using False unfolding fl_def Let_def ue r by simp
  also have "\<dots> = sgn (of_int n) * \<bar>of_int n\<bar>" by simp
  also have "\<dots> = of_int n" by (simp add: sgn_mult_abs del: of_int_abs)
  finally show ?thesis .
qed


subsection \<open>init, start, apply\_immediate, abort, get\_current, set\_current\<close>

definition fade_controller_init :: "fade_state_internal \<Rightarrow> esp_err \<times> fade_state_internal" where
  "fade_controller_init s =
     (if initialized s then (ESP_OK, s)
      else (ESP_OK, zero_session\<lparr>state := FADE_STATE_IDLE, initialized := True\<rparr>))"

text \<open>\<open>now_us\<close> is the value of \<open>esp_timer_get_time()\<close> read by \<open>fade_controller_start\<close>.\<close>

definition fade_controller_start ::
  "fade_params option \<Rightarrow> int \<Rightarrow> fade_state_internal \<Rightarrow> esp_err \<times> fade_state_internal" where
  "fade_controller_start params now_us s =
     (if \<not> initialized s then (ESP_ERR_INVALID_STATE, s)
      else case params of
        None \<Rightarrow> (ESP_ERR_INVALID_ARG, s)
      | Some p \<Rightarrow>
          (let s1 = s\<lparr>start_v := current s, target_v := target p, duration := duration_ms p\<rparr>;
               s2 = s1\<lparr>current_float := (\<lambda>i. float_of_u8 (get_param (current s1) i))\<rparr>
           in if duration_ms p = 0
              then (ESP_OK, s2\<lparr>current := target p, state := FADE_STATE_FADING,
                      tx_pending := True, next_param_index := 0, fade_start_us := now_us\<rparr>)
              else (ESP_OK, s2\<lparr>state := FADE_STATE_FADING, fade_start_us := now_us,
                      tx_pending := True, next_param_index := 0\<rparr>)))"

definition fade_controller_apply_immediate ::
  "lighting_state option \<Rightarrow> int \<Rightarrow> fade_state_internal \<Rightarrow> esp_err \<times> fade_state_internal" where
  "fade_controller_apply_immediate st now_us s =
     (case st of
        None \<Rightarrow> (ESP_ERR_INVALID_ARG, s)
      | Some v \<Rightarrow> fade_controller_start (Some \<lparr>target = v, duration_ms = 0\<rparr>) now_us s)"

definition fade_controller_is_active :: "fade_state_internal \<Rightarrow> bool" where
  "fade_controller_is_active s = (initialized s \<and> state s = FADE_STATE_FADING)"

definition fade_controller_abort :: "fade_state_internal \<Rightarrow> fade_state_internal" where
  "fade_controller_abort s =
     (if \<not> initialized s then s
      else s\<lparr>state := FADE_STATE_IDLE, tx_pending := False\<rparr>)"

definition fade_controller_get_current ::
  "fade_state_internal \<Rightarrow> bool \<Rightarrow> esp_err \<times> lighting_state option" where
  "fade_controller_get_current s has_out =
     (if \<not> initialized s then (ESP_ERR_INVALID_STATE, None)
      else if \<not> has_out then (ESP_ERR_INVALID_ARG, None)
      else (ESP_OK, Some (current s)))"

definition fade_controller_set_current ::
  "lighting_state option \<Rightarrow> fade_state_internal \<Rightarrow> esp_err \<times> fade_state_internal" where
  "fade_controller_set_current st s =
     (if \<not> initialized s then (ESP_ERR_INVALID_STATE, s)
      else case st of
        None \<Rightarrow> (ESP_ERR_INVALID_ARG, s)
      | Some v \<Rightarrow>
          (let s1 = s\<lparr>current := v\<rparr>
           in (ESP_OK, s1\<lparr>current_float := (\<lambda>i. float_of_u8 (get_param (current s1) i))\<rparr>)))"

subsection \<open>The bus sink (main/app/lcc\_node.cpp)\<close>

text \<open>
  \<open>lcc_node_send_lighting_event\<close>.  \<open>running\<close> stands for
  \<open>s_status == LCC_STATUS_RUNNING && s_stack\<close> at the moment of the call; the second
  component is the event identifier handed to the stack, if any.
\<close>

definition lcc_node_send_lighting_event :: "bool \<Rightarrow> u64 \<Rightarrow> u8 \<Rightarrow> u8 \<Rightarrow> esp_err \<times> u64 option" where
  "lcc_node_send_lighting_event running base_event_id parameter val =
     (if \<not> running then (ESP_ERR_INVALID_STATE, None)
      else if 4 < parameter then (ESP_ERR_INVALID_ARG, None)
      else (ESP_OK, Some ((base_event_id AND 0xFFFFFFFFFFFF0000) OR
                            push_bit 8 (ucast parameter) OR ucast val)))"

text \<open>
  The fade controller only sees the result code of the sink.  A sink is the result code of
  the call \<open>lcc_node_send_lighting_event(parameter, value)\<close> made during one tick; within one
  tick every parameter is sent at most once, so a function of the arguments covers a sink
  whose readiness changes between two calls.
\<close>

type_synonym sink = "u8 \<Rightarrow> u8 \<Rightarrow> esp_err"

definition lcc_sink :: "(u8 \<Rightarrow> bool) \<Rightarrow> u64 \<Rightarrow> sink" where
  "lcc_sink running_at base_event_id =
     (\<lambda>parameter val. fst (lcc_node_send_lighting_event (running_at parameter) base_event_id parameter val))"

definition transmit_param :: "sink \<Rightarrow> light_param \<Rightarrow> u8 \<Rightarrow> esp_err" where
  "transmit_param snk param val = snk (of_nat (param_index param)) val"

subsection \<open>tick\<close>

definition LIGHT_PARAM_COUNT :: nat where
  "LIGHT_PARAM_COUNT = 5"

definition fadd :: "rat \<Rightarrow> rat \<Rightarrow> rat" where
  "fadd a b = fl (a + b)"

definition fsub :: "rat \<Rightarrow> rat \<Rightarrow> rat" where
  "fsub a b = fl (a - b)"

definition fmul :: "rat \<Rightarrow> rat \<Rightarrow> rat" where
  "fmul a b = fl (a * b)"

definition fdiv :: "rat \<Rightarrow> rat \<Rightarrow> rat" where
  "fdiv a b = fl (a / b)"

text \<open>\<open>(float)x\<close> for a \<open>uint32_t\<close>: rounded when \<open>x\<close> needs more than 24 bits.\<close>

definition float_of_u32 :: "u32 \<Rightarrow> rat" where
  "float_of_u32 w = fl (of_nat (unat w))"

text \<open>
  \<open>roundf\<close> of the C library: the nearest integer, halfway cases away from zero.  The result
  is an integral \<open>float\<close>, given here as an integer.
\<close>

definition roundf :: "rat \<Rightarrow> int" where
  "roundf x = (if 0 \<le> x then \<lfloor>x + 1 / 2\<rfloor> else - \<lfloor>- x + 1 / 2\<rfloor>)"

text \<open>
  \<open>(uint8_t)\<close> applied to an integral \<open>float\<close>.  The conversion is defined by C for
  values from 0 to 255 only; the values committed by the interpolation are in that range
  (lemma \<open>committed_value_in_range\<close> below).
\<close>

definition uint8_cast :: "int \<Rightarrow> u8" where
  "uint8_cast n = word_of_int n"

text \<open>Division of \<open>int64_t\<close> values truncates towards zero.\<close>

definition c_div :: "int \<Rightarrow> int \<Rightarrow> int" where
  "c_div a b = sgn a * sgn b * (\<bar>a\<bar> div \<bar>b\<bar>)"

text \<open>\<open>elapsed_ms = (uint32_t)(elapsed_us / 1000)\<close>: the conversion keeps the low 32 bits.\<close>

definition elapsed_ms :: "fade_state_internal \<Rightarrow> int \<Rightarrow> u32" where
  "elapsed_ms s now_us = word_of_int (c_div (now_us - fade_start_us s) 1000)"

definition fade_progress :: "fade_state_internal \<Rightarrow> int \<Rightarrow> rat" where
  "fade_progress s now_us =
     (if duration s = 0 then 1
      else let progress = fdiv (float_of_u32 (elapsed_ms s now_us)) (float_of_u32 (duration s))
           in if 1 < progress then 1 else progress)"

text \<open>One iteration of the interpolation loop (lines 232 to 248), for the channel \<open>param\<close>.\<close>

definition interp_step ::
  "rat \<Rightarrow> light_param \<Rightarrow> fade_state_internal \<times> bool \<Rightarrow> fade_state_internal \<times> bool" where
  "interp_step progress param sc =
     (let s = fst sc; values_changed = snd sc;
          start_val = float_of_u8 (get_param (start_v s) param);
          target_val = float_of_u8 (get_param (target_v s) param);
          new_val = fadd start_val (fmul (fsub target_val start_val) progress);
          old_int = uint8_cast (roundf (current_float s param));
          new_int = uint8_cast (roundf new_val)
      in (s\<lparr>current_float := (current_float s)(param := new_val),
            current := set_param (current s) param new_int\<rparr>,
          values_changed \<or> old_int \<noteq> new_int))"

definition interpolate :: "rat \<Rightarrow> fade_state_internal \<Rightarrow> fade_state_internal \<times> bool" where
  "interpolate progress s = foldl (\<lambda>sc param. interp_step progress param sc) (s, False) all_params"

text \<open>
  The transmission loop (lines 259 to 275).  It returns the cursor, \<open>any_sent\<close> and the calls
  made to the sink in order, each with its result code.
\<close>

type_synonym tx_attempt = "light_param \<times> u8 \<times> esp_err"

function tx_loop :: "sink \<Rightarrow> lighting_state \<Rightarrow> nat \<Rightarrow> bool \<Rightarrow> nat \<times> bool \<times> tx_attempt list" where
  "tx_loop snk cur idx any_sent =
     (if idx < LIGHT_PARAM_COUNT then
        (let param = TX_ORDER ! idx;
             val = get_param cur param;
             err = transmit_param snk param val
         in if err = ESP_OK then
              (case tx_loop snk cur (idx + 1) True of
                 (idx', sent', calls) \<Rightarrow> (idx', sent', (param, val, err) # calls))
            else if err = ESP_ERR_INVALID_STATE then (idx, any_sent, [(param, val, err)])
            else
              (case tx_loop snk cur (idx + 1) any_sent of
                 (idx', sent', calls) \<Rightarrow> (idx', sent', (param, val, err) # calls)))
      else (idx, any_sent, []))"
  by pat_completeness auto
termination
  by (relation "measure (\<lambda>(snk, cur, idx, any_sent). LIGHT_PARAM_COUNT - idx)") auto

declare tx_loop.simps [simp del]

text \<open>
  Lines 255 to 286, once the trigger and the rate limit have let the round start.  \<open>tx_us\<close> is
  the clock read after the loop (line 278).
\<close>

definition tx_round :: "sink \<Rightarrow> int \<Rightarrow> fade_state_internal \<Rightarrow> fade_state_internal \<times> tx_attempt list" where
  "tx_round snk tx_us s =
     (case tx_loop snk (current s) (next_param_index s) False of
        (idx, any_sent, calls) \<Rightarrow>
          (let s1 = s\<lparr>next_param_index := idx\<rparr>;
               s2 = (if any_sent then s1\<lparr>last_tx_us := tx_us\<rparr> else s1);
               s3 = (if LIGHT_PARAM_COUNT \<le> next_param_index s2
                     then s2\<lparr>next_param_index := 0, tx_pending := False\<rparr> else s2)
           in (s3, calls)))"

text \<open>The condition of line 253 together with the rate limit of line 255.\<close>

definition tx_gate :: "bool \<Rightarrow> rat \<Rightarrow> int \<Rightarrow> fade_state_internal \<Rightarrow> bool" where
  "tx_gate values_changed progress now_us s =
     ((values_changed \<or> tx_pending s \<or> (1 \<le> progress \<and> next_param_index s \<noteq> 0)) \<and>
      MIN_TX_INTERVAL_MS * 1000 \<le> now_us - last_tx_us s)"

definition all_at_target :: "fade_state_internal \<Rightarrow> bool" where
  "all_at_target s = list_all (\<lambda>param. get_param (current s) param = get_param (target_v s) param) all_params"

text \<open>Lines 290 to 309.\<close>

definition check_complete :: "rat \<Rightarrow> fade_state_internal \<Rightarrow> fade_state_internal" where
  "check_complete progress s =
     (if 1 \<le> progress \<and> \<not> tx_pending s \<and> next_param_index s = 0 then
        (if all_at_target s then s\<lparr>state := FADE_STATE_COMPLETE\<rparr>
         else s\<lparr>current := target_v s, tx_pending := True\<rparr>)
      else s)"

text \<open>
  \<open>fade_controller_tick\<close>.  \<open>now_us\<close> is the clock read at line 215 and \<open>tx_us\<close> the one read
  at line 278.  The third component of the result lists the calls made to the sink.
\<close>

definition fade_controller_tick ::
  "sink \<Rightarrow> int \<Rightarrow> int \<Rightarrow> fade_state_internal \<Rightarrow> esp_err \<times> fade_state_internal \<times> tx_attempt list" where
  "fade_controller_tick snk now_us tx_us s =
     (if \<not> initialized s then (ESP_ERR_NOT_FOUND, s, [])
      else if state s = FADE_STATE_IDLE then (ESP_OK, s, [])
      else if state s = FADE_STATE_COMPLETE then (ESP_OK, s\<lparr>state := FADE_STATE_IDLE\<rparr>, [])
      else
        (let progress = fade_progress s now_us;
             s1 = fst (interpolate progress s);
             values_changed = snd (interpolate progress s);
             r = (if tx_gate values_changed progress now_us s1 then tx_round snk tx_us s1
                  else (s1, []))
         in (ESP_OK, check_complete progress (fst r), snd r)))"

subsection \<open>get\_progress\<close>

text \<open>
  \<open>fade_progress_t\<close>; the field names carry a prefix because \<open>state\<close> and \<open>current\<close> are
  fields of the session already.
\<close>

record fade_progress_t =
  pr_state :: fade_state
  pr_current :: lighting_state
  pr_elapsed_ms :: u32
  pr_total_ms :: u32
  pr_progress_percent :: u8

text \<open>The output after \<open>memset(progress, 0, sizeof(*progress))\<close>.\<close>

definition zero_progress :: fade_progress_t where
  "zero_progress = \<lparr>pr_state = FADE_STATE_IDLE, pr_current = zero_lighting, pr_elapsed_ms = 0,
     pr_total_ms = 0, pr_progress_percent = 0\<rparr>"

text \<open>
  \<open>has_out\<close> tells whether the output pointer is non-null, \<open>now_us\<close> is the clock read in
  the FADING branch.  \<open>elapsed_ms * 100\<close> is a 32-bit product.
\<close>

definition fade_controller_get_progress ::
  "bool \<Rightarrow> int \<Rightarrow> fade_state_internal \<Rightarrow> fade_state \<times> fade_progress_t option" where
  "fade_controller_get_progress has_out now_us s =
     (if \<not> initialized s then (FADE_STATE_IDLE, if has_out then Some zero_progress else None)
      else if \<not> has_out then (state s, None)
      else
        (let total = duration s;
             elapsed =
               (if state s = FADE_STATE_FADING then
                  (if total < elapsed_ms s now_us then total else elapsed_ms s now_us)
                else if state s = FADE_STATE_COMPLETE then total
                else 0);
             percent =
               (if state s = FADE_STATE_FADING then
                  (if 0 < total then ucast ((elapsed * 100) div total) else 100)
                else if state s = FADE_STATE_COMPLETE then 100
                else 0)
         in (state s, Some \<lparr>pr_state = state s, pr_current = current s, pr_elapsed_ms = elapsed,
                             pr_total_ms = total, pr_progress_percent = percent\<rparr>)))"

text \<open>The percentage as the specification words it, on unbounded numbers.\<close>

definition percent_spec :: "bool \<Rightarrow> nat \<Rightarrow> nat \<Rightarrow> nat" where
  "percent_spec is_complete elapsedMs totalMs =
     (if is_complete then 100 else if 0 < totalMs then elapsedMs * 100 div totalMs else 100)"

section \<open>The interpolation loop\<close>

text \<open>The value computed for a channel by one iteration of the interpolation loop, and its
  rounded 8-bit value.\<close>

definition interp_val :: "rat \<Rightarrow> fade_state_internal \<Rightarrow> light_param \<Rightarrow> rat" where
  "interp_val progress s param =
     fadd (float_of_u8 (get_param (start_v s) param))
       (fmul (fsub (float_of_u8 (get_param (target_v s) param))
                (float_of_u8 (get_param (start_v s) param))) progress)"

definition interp_int :: "rat \<Rightarrow> fade_state_internal \<Rightarrow> light_param \<Rightarrow> u8" where
  "interp_int progress s param = uint8_cast (roundf (interp_val progress s param))"

lemma interp_step_fields:
  "initialized (fst (interp_step p i sc)) = initialized (fst sc)"
  "state (fst (interp_step p i sc)) = state (fst sc)"
  "start_v (fst (interp_step p i sc)) = start_v (fst sc)"
  "target_v (fst (interp_step p i sc)) = target_v (fst sc)"
  "duration (fst (interp_step p i sc)) = duration (fst sc)"
  "fade_start_us (fst (interp_step p i sc)) = fade_start_us (fst sc)"
  "last_tx_us (fst (interp_step p i sc)) = last_tx_us (fst sc)"
  "next_param_index (fst (interp_step p i sc)) = next_param_index (fst sc)"
  "tx_pending (fst (interp_step p i sc)) = tx_pending (fst sc)"
  by (simp_all add: interp_step_def Let_def)

lemma interp_step_current:
  "current (fst (interp_step p i sc)) = set_param (current (fst sc)) i (interp_int p (fst sc) i)"
  "current_float (fst (interp_step p i sc)) = (current_float (fst sc))(i := interp_val p (fst sc) i)"
  "snd (interp_step p i sc) =
     (snd sc \<or> uint8_cast (roundf (current_float (fst sc) i)) \<noteq> interp_int p (fst sc) i)"
  by (simp_all add: interp_step_def Let_def interp_int_def interp_val_def)

lemma interp_val_step [simp]: "interp_val p (fst (interp_step q i sc)) j = interp_val p (fst sc) j"
  by (simp add: interp_val_def interp_step_fields)

lemma interp_int_step [simp]: "interp_int p (fst (interp_step q i sc)) j = interp_int p (fst sc) j"
  by (simp add: interp_int_def)

lemma interpolate_fields:
  "initialized (fst (interpolate p s)) = initialized s"
  "state (fst (interpolate p s)) = state s"
  "start_v (fst (interpolate p s)) = start_v s"
  "target_v (fst (interpolate p s)) = target_v s"
  "duration (fst (interpolate p s)) = duration s"
  "fade_start_us (fst (interpolate p s)) = fade_start_us s"
  "last_tx_us (fst (interpolate p s)) = last_tx_us s"
  "next_param_index (fst (interpolate p s)) = next_param_index s"
  "tx_pending (fst (interpolate p s)) = tx_pending s"
  by (simp_all add: interpolate_def all_params_def interp_step_fields)

lemma interpolate_current:
  "current (fst (interpolate p s)) =
     \<lparr>brightness = interp_int p s LIGHT_PARAM_BRIGHTNESS, red = interp_int p s LIGHT_PARAM_RED,
      green = interp_int p s LIGHT_PARAM_GREEN, blue = interp_int p s LIGHT_PARAM_BLUE,
      white = interp_int p s LIGHT_PARAM_WHITE\<rparr>"
  by (simp add: interpolate_def all_params_def interp_step_current)



lemma all_light_param:
  "(\<forall>i. P i) = (P LIGHT_PARAM_RED \<and> P LIGHT_PARAM_GREEN \<and> P LIGHT_PARAM_BLUE \<and>
     P LIGHT_PARAM_WHITE \<and> P LIGHT_PARAM_BRIGHTNESS)"
  by (metis light_param.exhaust)



lemma roundf_of_nat: "roundf (of_nat n) = int n"
proof -
  have "\<lfloor>(of_nat n :: rat) + 1 / 2\<rfloor> = int n" by (simp add: floor_eq_iff)
  then show ?thesis by (simp add: roundf_def)
qed

lemma roundf_float_of_u8 [simp]: "uint8_cast (roundf (float_of_u8 v)) = v"
  unfolding float_of_u8_def roundf_of_nat by (simp add: uint8_cast_def)

lemma fl_zero [simp]: "fl 0 = 0"
  by (simp add: fl_def)

lemma fl_of_nat: "n < 2 ^ 24 \<Longrightarrow> fl (of_nat n) = of_nat n"
  using fl_of_int [of "int n"] by simp

lemma unat_u8_bound: "unat (v::u8) < 256"
  using unsigned_less [of v, where 'a = nat] by simp

lemma fl_u8 [simp]: "fl (float_of_u8 v) = float_of_u8 v"
  unfolding float_of_u8_def using unat_u8_bound [of v] by (intro fl_of_nat) simp

lemma fsub_u8: "fsub (float_of_u8 a) (float_of_u8 b) = float_of_u8 a - float_of_u8 b"
proof -
  have e: "float_of_u8 a - float_of_u8 b = of_int (int (unat a) - int (unat b))"
    unfolding float_of_u8_def by (simp only: of_int_diff of_int_of_nat_eq)
  have "(2::int) ^ 24 = 16777216" by simp
  then have "\<bar>int (unat a) - int (unat b)\<bar> < 2 ^ 24"
    using unat_u8_bound [of a] unat_u8_bound [of b] by linarith
  then show ?thesis unfolding fsub_def e by (rule fl_of_int)
qed

lemma interp_val_one [simp]: "interp_val 1 s i = float_of_u8 (get_param (target_v s) i)"
  by (simp add: interp_val_def fsub_u8 fmul_def fadd_def flip: fsub_def)

lemma interp_val_zero [simp]: "interp_val 0 s i = float_of_u8 (get_param (start_v s) i)"
  by (simp add: interp_val_def fmul_def fadd_def)

lemma interp_int_one [simp]: "interp_int 1 s i = get_param (target_v s) i"
  by (simp add: interp_int_def)

lemma interp_int_zero [simp]: "interp_int 0 s i = get_param (start_v s) i"
  by (simp add: interp_int_def)

lemma interpolate_one_current: "current (fst (interpolate 1 s)) = target_v s"
  by (simp add: interpolate_current)

lemma interpolate_zero_current: "current (fst (interpolate 0 s)) = start_v s"
  by (simp add: interpolate_current)


section \<open>The transmission loop\<close>

lemma tx_loop_beyond [simp]: "LIGHT_PARAM_COUNT \<le> idx \<Longrightarrow> tx_loop snk cur idx a = (idx, a, [])"
  by (subst tx_loop.simps) simp

text \<open>The sink answers the call for the channel at cursor position \<open>j\<close> with the transient
  not-ready code.\<close>

definition not_ready_at :: "sink \<Rightarrow> lighting_state \<Rightarrow> nat \<Rightarrow> bool" where
  "not_ready_at snk cur j =
     (transmit_param snk (TX_ORDER ! j) (get_param cur (TX_ORDER ! j)) = ESP_ERR_INVALID_STATE)"

lemma tx_loop_step:
  "idx < LIGHT_PARAM_COUNT \<Longrightarrow>
   tx_loop snk cur idx a =
     (let param = TX_ORDER ! idx; val = get_param cur param; err = transmit_param snk param val
      in if err = ESP_ERR_INVALID_STATE then (idx, a, [(param, val, err)])
         else (fst (tx_loop snk cur (Suc idx) (a \<or> err = ESP_OK)),
               fst (snd (tx_loop snk cur (Suc idx) (a \<or> err = ESP_OK))),
               (param, val, err) # snd (snd (tx_loop snk cur (Suc idx) (a \<or> err = ESP_OK)))))"
  by (subst tx_loop.simps) (auto simp: Let_def split: prod.splits)

lemma tx_loop_channels:
  "map fst (snd (snd (tx_loop snk cur idx a))) =
     take (length (snd (snd (tx_loop snk cur idx a)))) (drop idx TX_ORDER)"
proof (induction "LIGHT_PARAM_COUNT - idx" arbitrary: idx a)
  case 0
  then show ?case by simp
next
  case (Suc n)
  then have lt: "idx < LIGHT_PARAM_COUNT" by simp
  have len: "idx < length TX_ORDER" using lt by (simp add: TX_ORDER_def LIGHT_PARAM_COUNT_def)
  have d: "drop idx TX_ORDER = TX_ORDER ! idx # drop (Suc idx) TX_ORDER"
    using len by (simp add: Cons_nth_drop_Suc)
  have d': "drop (idx + 1) TX_ORDER = drop (Suc idx) TX_ORDER" by simp
  from Suc have ih: "\<And>b. map fst (snd (snd (tx_loop snk cur (Suc idx) b))) =
     take (length (snd (snd (tx_loop snk cur (Suc idx) b)))) (drop (Suc idx) TX_ORDER)"
    by simp
  show ?case unfolding tx_loop_step [OF lt] d by (simp add: Let_def ih)
qed

lemma tx_loop_index:
  "idx \<le> LIGHT_PARAM_COUNT \<Longrightarrow>
   idx \<le> fst (tx_loop snk cur idx a) \<and> fst (tx_loop snk cur idx a) \<le> LIGHT_PARAM_COUNT"
proof (induction "LIGHT_PARAM_COUNT - idx" arbitrary: idx a)
  case 0
  then show ?case by simp
next
  case (Suc n)
  then have lt: "idx < LIGHT_PARAM_COUNT" by simp
  from Suc have "\<And>b. Suc idx \<le> fst (tx_loop snk cur (Suc idx) b) \<and>
      fst (tx_loop snk cur (Suc idx) b) \<le> LIGHT_PARAM_COUNT"
    by simp
  then have ih: "\<And>b. idx \<le> fst (tx_loop snk cur (Suc idx) b) \<and>
      fst (tx_loop snk cur (Suc idx) b) \<le> LIGHT_PARAM_COUNT"
    using Suc_leD by blast
  show ?case unfolding tx_loop_step [OF lt] using ih lt by (simp add: Let_def)
qed

lemma tx_loop_halt:
  assumes "idx \<le> k" "k < LIGHT_PARAM_COUNT" "\<forall>j. idx \<le> j \<and> j < k \<longrightarrow> \<not> not_ready_at snk cur j"
    "not_ready_at snk cur k"
  shows "fst (tx_loop snk cur idx a) = k \<and> length (snd (snd (tx_loop snk cur idx a))) = k + 1 - idx"
  using assms
proof (induction "k - idx" arbitrary: idx a)
  case 0
  then have e: "idx = k" by simp
  show ?case using 0(5) 0(3) unfolding e tx_loop_step [OF 0(3)] by (simp add: not_ready_at_def Let_def)
next
  case (Suc n)
  then have lt: "idx < LIGHT_PARAM_COUNT" and lk: "idx < k" by simp_all
  have nr: "\<not> not_ready_at snk cur idx" using Suc.prems lk by simp
  have ih: "\<And>b. fst (tx_loop snk cur (Suc idx) b) = k \<and>
      length (snd (snd (tx_loop snk cur (Suc idx) b))) = k + 1 - (Suc idx)"
    using Suc.hyps(1) [of "idx + 1"] Suc.hyps(2) Suc.prems lk by simp
  show ?case unfolding tx_loop_step [OF lt] using nr ih lk
    by (simp add: Let_def not_ready_at_def)
qed

lemma tx_loop_full:
  assumes "idx \<le> LIGHT_PARAM_COUNT" "\<forall>j. idx \<le> j \<and> j < LIGHT_PARAM_COUNT \<longrightarrow> \<not> not_ready_at snk cur j"
  shows "fst (tx_loop snk cur idx a) = LIGHT_PARAM_COUNT \<and>
         length (snd (snd (tx_loop snk cur idx a))) = LIGHT_PARAM_COUNT - idx"
  using assms
proof (induction "LIGHT_PARAM_COUNT - idx" arbitrary: idx a)
  case 0
  then show ?case by simp
next
  case (Suc n)
  then have lt: "idx < LIGHT_PARAM_COUNT" by simp
  have nr: "\<not> not_ready_at snk cur idx" using Suc.prems lt by simp
  have ih: "\<And>b. fst (tx_loop snk cur (Suc idx) b) = LIGHT_PARAM_COUNT \<and>
      length (snd (snd (tx_loop snk cur (Suc idx) b))) = LIGHT_PARAM_COUNT - (Suc idx)"
    using Suc.hyps(1) [of "idx + 1"] Suc.hyps(2) Suc.prems lt by simp
  show ?case unfolding tx_loop_step [OF lt] using nr ih lt
    by (simp add: Let_def not_ready_at_def)
qed


lemma tx_loop_advance:
  "idx \<le> LIGHT_PARAM_COUNT \<Longrightarrow>
   fst (tx_loop snk cur idx a) =
     idx + length (filter (\<lambda>c. snd (snd c) \<noteq> ESP_ERR_INVALID_STATE) (snd (snd (tx_loop snk cur idx a))))"
proof (induction "LIGHT_PARAM_COUNT - idx" arbitrary: idx a)
  case 0
  then show ?case by simp
next
  case (Suc n)
  then have lt: "idx < LIGHT_PARAM_COUNT" by simp
  from Suc lt have ih: "\<And>b. fst (tx_loop snk cur (Suc idx) b) =
     Suc idx + length (filter (\<lambda>c. snd (snd c) \<noteq> ESP_ERR_INVALID_STATE)
        (snd (snd (tx_loop snk cur (Suc idx) b))))"
    by simp
  show ?case unfolding tx_loop_step [OF lt] by (simp add: Let_def ih)
qed

text \<open>The sink of the repository answers a call for one of the five channels with \<open>ESP_OK\<close>
  or, when the node is not running, with the not-ready code.\<close>

lemma transmit_param_lcc_sink:
  "transmit_param (lcc_sink running_at base_event_id) param val =
     (if running_at (of_nat (param_index param)) then ESP_OK else ESP_ERR_INVALID_STATE)"
  by (cases param) (simp_all add: transmit_param_def lcc_sink_def lcc_node_send_lighting_event_def)

section \<open>The tick as a whole\<close>

text \<open>The tick at \<open>now_us\<close> enters the transmission block of lines 256 to 285.\<close>

definition round_starts :: "fade_state_internal \<Rightarrow> int \<Rightarrow> bool" where
  "round_starts s now_us =
     (initialized s \<and> state s = FADE_STATE_FADING \<and>
      tx_gate (snd (interpolate (fade_progress s now_us) s)) (fade_progress s now_us) now_us
        (fst (interpolate (fade_progress s now_us) s)))"

lemma check_complete_fields:
  "initialized (check_complete p s) = initialized s"
  "next_param_index (check_complete p s) = next_param_index s"
  "last_tx_us (check_complete p s) = last_tx_us s"
  "start_v (check_complete p s) = start_v s"
  "target_v (check_complete p s) = target_v s"
  "duration (check_complete p s) = duration s"
  "fade_start_us (check_complete p s) = fade_start_us s"
  "current_float (check_complete p s) = current_float s"
  by (simp_all add: check_complete_def)

lemma tx_round_calls:
  "snd (tx_round snk tx_us s) = snd (snd (tx_loop snk (current s) (next_param_index s) False))"
  by (simp add: tx_round_def Let_def split: prod.splits)

lemma tx_round_index:
  "next_param_index (fst (tx_round snk tx_us s)) =
     (if LIGHT_PARAM_COUNT \<le> fst (tx_loop snk (current s) (next_param_index s) False) then 0
      else fst (tx_loop snk (current s) (next_param_index s) False))"
  by (simp add: tx_round_def Let_def split: prod.splits)

lemma tx_round_fields:
  "initialized (fst (tx_round snk tx_us s)) = initialized s"
  "state (fst (tx_round snk tx_us s)) = state s"
  "current (fst (tx_round snk tx_us s)) = current s"
  "start_v (fst (tx_round snk tx_us s)) = start_v s"
  "target_v (fst (tx_round snk tx_us s)) = target_v s"
  "duration (fst (tx_round snk tx_us s)) = duration s"
  "fade_start_us (fst (tx_round snk tx_us s)) = fade_start_us s"
  "current_float (fst (tx_round snk tx_us s)) = current_float s"
  by (simp_all add: tx_round_def Let_def split: prod.splits)

lemma tx_round_last_tx:
  "last_tx_us (fst (tx_round snk tx_us s)) =
     (if fst (snd (tx_loop snk (current s) (next_param_index s) False)) then tx_us else last_tx_us s)"
  by (simp add: tx_round_def Let_def split: prod.splits)

lemma tx_round_pending:
  "tx_pending (fst (tx_round snk tx_us s)) =
     (tx_pending s \<and> fst (tx_loop snk (current s) (next_param_index s) False) < LIGHT_PARAM_COUNT)"
  by (auto simp: tx_round_def Let_def split: prod.splits)

lemma tick_calls:
  "snd (snd (fade_controller_tick snk now_us tx_us s)) =
     (if round_starts s now_us
      then snd (snd (tx_loop snk (current (fst (interpolate (fade_progress s now_us) s)))
                  (next_param_index s) False))
      else [])"
  by (cases "state s")
     (simp_all add: fade_controller_tick_def round_starts_def Let_def tx_round_calls interpolate_fields)

lemma tick_index:
  "next_param_index (fst (snd (fade_controller_tick snk now_us tx_us s))) =
     (if round_starts s now_us
      then (let idx = fst (tx_loop snk (current (fst (interpolate (fade_progress s now_us) s)))
                  (next_param_index s) False)
            in if LIGHT_PARAM_COUNT \<le> idx then 0 else idx)
      else next_param_index s)"
  by (cases "state s")
     (simp_all add: fade_controller_tick_def round_starts_def Let_def tx_round_index
        interpolate_fields check_complete_fields)

section \<open>Concrete sessions\<close>

text \<open>\<open>applyImmediate\<close> as the specification words it: \<open>start\<close> with the given target and
  duration 0.\<close>

definition applyImmediate_spec ::
  "lighting_state \<Rightarrow> int \<Rightarrow> fade_state_internal \<Rightarrow> esp_err \<times> fade_state_internal" where
  "applyImmediate_spec S now_us s =
     fade_controller_start (Some \<lparr>target = S, duration_ms = 0\<rparr>) now_us s"

text \<open>A scene, an initialized session and two sinks, used as concrete inputs.\<close>

definition scene_a :: lighting_state where
  "scene_a = \<lparr>brightness = 255, red = 0, green = 0, blue = 0, white = 0\<rparr>"

definition ready_session :: fade_state_internal where
  "ready_session = snd (fade_controller_init zero_session)"

definition sink_ok :: sink where
  "sink_ok = (\<lambda>parameter val. ESP_OK)"

definition sink_not_ready_on :: "u8 \<Rightarrow> sink" where
  "sink_not_ready_on p = (\<lambda>parameter val. if parameter = p then ESP_ERR_INVALID_STATE else ESP_OK)"

text \<open>The session after \<open>init\<close> and \<open>apply_immediate(scene_a)\<close> at time 0, and the session
  after a tick at 20 ms during which the sink is not ready for the third channel (green).\<close>

definition applied_session :: fade_state_internal where
  "applied_session = snd (fade_controller_apply_immediate (Some scene_a) 0 ready_session)"

definition halted_session :: fade_state_internal where
  "halted_session = fst (snd (fade_controller_tick (sink_not_ready_on 1) 20000 20000 applied_session))"

lemma ready_session_simps [simp]:
  "initialized ready_session" "state ready_session = FADE_STATE_IDLE"
  "current ready_session = zero_lighting" "last_tx_us ready_session = 0"
  "next_param_index ready_session = 0" "\<not> tx_pending ready_session"
  by (simp_all add: ready_session_def fade_controller_init_def zero_session_def)

lemma applied_session_simps [simp]:
  "initialized applied_session" "state applied_session = FADE_STATE_FADING"
  "current applied_session = scene_a" "last_tx_us applied_session = 0"
  "next_param_index applied_session = 0" "tx_pending applied_session"
  "duration applied_session = 0" "target_v applied_session = scene_a"
  "start_v applied_session = zero_lighting" "fade_start_us applied_session = 0"
  by (simp_all add: applied_session_def fade_controller_apply_immediate_def
        fade_controller_start_def Let_def)

lemma fade_progress_immediate [simp]: "duration s = 0 \<Longrightarrow> fade_progress s now_us = 1"
  by (simp add: fade_progress_def)

lemma round_starts_pending:
  "initialized s \<Longrightarrow> state s = FADE_STATE_FADING \<Longrightarrow> tx_pending s \<Longrightarrow>
   round_starts s now_us = (MIN_TX_INTERVAL_MS * 1000 \<le> now_us - last_tx_us s)"
  by (simp add: round_starts_def tx_gate_def interpolate_fields)

lemma halted_index: "next_param_index halted_session = 2"
  unfolding halted_session_def tick_index
  by (simp add: round_starts_pending MIN_TX_INTERVAL_MS_def interpolate_one_current
      tx_loop.simps LIGHT_PARAM_COUNT_def TX_ORDER_def transmit_param_def sink_not_ready_on_def
      scene_a_def Let_def)

lemma halted_calls:
  "snd (snd (fade_controller_tick (sink_not_ready_on 1) 20000 20000 applied_session)) =
    [(LIGHT_PARAM_BRIGHTNESS, 255, ESP_OK), (LIGHT_PARAM_RED, 0, ESP_OK),
     (LIGHT_PARAM_GREEN, 0, ESP_ERR_INVALID_STATE)]"
  unfolding tick_calls
  by (simp add: round_starts_pending MIN_TX_INTERVAL_MS_def interpolate_one_current
      tx_loop.simps LIGHT_PARAM_COUNT_def TX_ORDER_def transmit_param_def sink_not_ready_on_def
      scene_a_def Let_def)


text \<open>The channel values committed by the interpolation step of the tick at \<open>now_us\<close>.\<close>

definition tick_values :: "fade_state_internal \<Rightarrow> int \<Rightarrow> lighting_state" where
  "tick_values s now_us = current (fst (interpolate (fade_progress s now_us) s))"

lemma tick_fading:
  "initialized s \<Longrightarrow> state s = FADE_STATE_FADING \<Longrightarrow>
   fst (snd (fade_controller_tick snk now_us tx_us s)) =
     check_complete (fade_progress s now_us)
       (if round_starts s now_us
        then fst (tx_round snk tx_us (fst (interpolate (fade_progress s now_us) s)))
        else fst (interpolate (fade_progress s now_us) s))"
  by (simp add: fade_controller_tick_def round_starts_def Let_def)

lemma all_at_target_iff: "all_at_target s = (current s = target_v s)"
proof -
  have "all_at_target s = (\<forall>i. get_param (current s) i = get_param (target_v s) i)"
    unfolding all_light_param by (auto simp: all_at_target_def all_params_def)
  also have "\<dots> = (current s = target_v s)"
    unfolding all_light_param by (cases "current s", cases "target_v s") auto
  finally show ?thesis .
qed

lemma halted_session_simps [simp]:
  "initialized halted_session" "state halted_session = FADE_STATE_FADING"
  "current halted_session = scene_a" "last_tx_us halted_session = 20000"
  "tx_pending halted_session" "duration halted_session = 0" "target_v halted_session = scene_a"
  unfolding halted_session_def
  by (simp_all add: tick_fading round_starts_pending MIN_TX_INTERVAL_MS_def check_complete_def
      tx_round_fields tx_round_last_tx tx_round_pending tx_round_index interpolate_fields
      interpolate_one_current
      tx_loop.simps LIGHT_PARAM_COUNT_def TX_ORDER_def transmit_param_def sink_not_ready_on_def
      scene_a_def Let_def)

lemma tick_values_immediate [simp]: "duration s = 0 \<Longrightarrow> tick_values s now_us = target_v s"
  by (simp add: tick_values_def interpolate_one_current)

lemma less_two_cases: "(\<forall>j::nat. a \<le> j \<and> j < 2 \<longrightarrow> P j) = (\<forall>j\<in>{0, 1}. a \<le> j \<longrightarrow> P j)"
  by (auto simp: less_2_cases_iff)

lemma c_div_zero [simp]: "c_div 0 b = 0"
  by (simp add: c_div_def)

lemma fade_progress_at_start: "fade_progress s (fade_start_us s) = (if duration s = 0 then 1 else 0)"
  by (simp add: fade_progress_def elapsed_ms_def float_of_u32_def fdiv_def)

text \<open>A session in the middle of a one-second fade from dark to \<open>scene_a\<close>.\<close>

definition mid_fade_session :: fade_state_internal where
  "mid_fade_session = zero_session\<lparr>initialized := True, state := FADE_STATE_FADING,
     current := \<lparr>brightness = 128, red = 0, green = 0, blue = 0, white = 0\<rparr>,
     target_v := scene_a, duration := 1000,
     current_float := (\<lambda>i. if i = LIGHT_PARAM_BRIGHTNESS then 255 / 2 else 0)\<rparr>"

lemma percent_no_wrap:
  fixes e total :: u32
  assumes "e \<le> total" "0 < total" "unat e * 100 < 2 ^ 32"
  shows "unat (ucast ((e * 100) div total) :: u8) = unat e * 100 div unat total"
proof -
  have m: "unat (e * 100) = unat e * 100"
    using assms(3) by (simp add: unat_word_ariths)
  have d: "unat ((e * 100) div total) = unat e * 100 div unat total"
    by (simp add: unat_div m)
  have "unat e \<le> unat total" using assms(1) by (simp add: word_le_nat_alt)
  then have "unat e * 100 \<le> unat total * 100" by simp
  then have "unat e * 100 div unat total \<le> unat total * 100 div unat total"
    by (rule div_le_mono)
  moreover have "0 < unat total" using assms(2) by (simp add: word_less_nat_alt)
  ultimately have "unat e * 100 div unat total \<le> 100" by simp
  then have "unat ((e * 100) div total) < 2 ^ 8" using d by simp
  then show ?thesis using d by (simp add: unsigned_ucast_eq take_bit_nat_eq_self)
qed

lemma elapsed_ms_mid [simp]: "elapsed_ms mid_fade_session 500000 = 500"
  by (simp add: elapsed_ms_def c_div_def mid_fade_session_def zero_session_def)

section \<open>Progress, committed values and completion\<close>

lemma fl_one [simp]: "fl 1 = 1"
  using fl_of_int [of 1] by simp

lemma fl_numeral: "numeral k < (2 ^ 24 :: int) \<Longrightarrow> fl (numeral k) = numeral k"
  using fl_of_int [of "numeral k"] by simp

lemma fade_progress_le_one: "fade_progress s now_us \<le> 1"
  by (simp add: fade_progress_def Let_def)




lemma elapsed_ms_exact:
  assumes "0 \<le> now_us - fade_start_us s" "now_us - fade_start_us s < 4294967296000"
  shows "unat (elapsed_ms s now_us) = nat ((now_us - fade_start_us s) div 1000)"
proof -
  let ?q = "(now_us - fade_start_us s) div 1000"
  have c: "c_div (now_us - fade_start_us s) 1000 = ?q"
    using assms(1) by (cases "now_us - fade_start_us s = 0") (simp_all add: c_div_def)
  have q0: "0 \<le> ?q" using assms(1) by simp
  have q1: "?q < 2 ^ 32" using assms(2) by simp
  have "unat (word_of_int ?q :: u32) = nat (take_bit 32 ?q)"
    by (simp add: unsigned_of_int)
  also have "take_bit 32 ?q = ?q" using q0 q1 by (simp add: take_bit_int_eq_self)
  finally show ?thesis by (simp add: elapsed_ms_def c)
qed

lemma tick_current:
  "initialized s \<Longrightarrow> state s = FADE_STATE_FADING \<Longrightarrow>
   current (fst (snd (fade_controller_tick snk now_us tx_us s))) = tick_values s now_us"
proof -
  assume a: "initialized s" "state s = FADE_STATE_FADING"
  let ?p = "fade_progress s now_us"
  have one: "1 \<le> ?p \<Longrightarrow> target_v s = tick_values s now_us"
  proof -
    assume "1 \<le> ?p"
    with fade_progress_le_one [of s now_us] have "?p = 1" by simp
    then show ?thesis by (simp add: tick_values_def interpolate_one_current)
  qed
  show ?thesis
    unfolding tick_fading [OF a] using one
    by (auto simp: check_complete_def tx_round_fields interpolate_fields tick_values_def)
qed






lemma fl_half [simp]: "fl (1 / 2) = 1 / 2"
  by (simp add: fl_def ilog2.simps round_half_even_def Let_def)

lemma fl_255_half [simp]: "fl (255 / 2) = 255 / 2"
  by (simp add: fl_def ilog2.simps round_half_even_def Let_def)

lemma float_of_u32_small: "unat w < 2 ^ 24 \<Longrightarrow> float_of_u32 w = of_nat (unat w)"
  unfolding float_of_u32_def by (rule fl_of_nat)

lemma float_of_u32_500 [simp]: "float_of_u32 500 = 500"
  by (subst float_of_u32_small) simp_all

lemma float_of_u32_1000 [simp]: "float_of_u32 1000 = 1000"
  by (subst float_of_u32_small) simp_all

lemma elapsed_ms_window:
  assumes "fade_start_us s + 1000 * int n \<le> now_us" "now_us < fade_start_us s + 1000 * int n + 1000"
    "n < 2 ^ 32"
  shows "elapsed_ms s now_us = of_nat n"
proof -
  have b: "0 \<le> now_us - fade_start_us s" "now_us - fade_start_us s < 4294967296000"
    using assms by simp_all
  have "(now_us - fade_start_us s) div 1000 = int n"
    using assms(1,2) by linarith
  then have "unat (elapsed_ms s now_us) = n" using elapsed_ms_exact [OF b] by simp
  then have "(of_nat (unat (elapsed_ms s now_us)) :: u32) = of_nat n" by (simp only:)
  then show ?thesis by simp
qed


text \<open>The scenario of the specification: from an all-zero \<open>current\<close>, a fade of one second to
  brightness 255, started at time 0.\<close>

definition scenario_session :: fade_state_internal where
  "scenario_session =
     snd (fade_controller_start (Some \<lparr>target = scene_a, duration_ms = 1000\<rparr>) 0 ready_session)"

lemma scenario_session_simps [simp]:
  "initialized scenario_session" "state scenario_session = FADE_STATE_FADING"
  "start_v scenario_session = zero_lighting" "target_v scenario_session = scene_a"
  "duration scenario_session = 1000" "fade_start_us scenario_session = 0"
  "last_tx_us scenario_session = 0"
  by (simp_all add: scenario_session_def fade_controller_start_def Let_def)

lemma interp_half_brightness:
  "brightness (start_v s) = 0 \<Longrightarrow> brightness (target_v s) = 255 \<Longrightarrow>
   interp_int (1 / 2) s LIGHT_PARAM_BRIGHTNESS = 128"
  by (simp add: interp_int_def interp_val_def float_of_u8_def fsub_def fmul_def fadd_def
        fl_numeral roundf_def uint8_cast_def)

text \<open>The value a channel was last sent with, according to a list of sink calls: the last
  call for the channel that the sink accepted.\<close>

fun last_transmitted :: "tx_attempt list \<Rightarrow> light_param \<Rightarrow> u8 option" where
  "last_transmitted [] param = None"
| "last_transmitted (c # cs) param =
     (case last_transmitted cs param of
        Some v \<Rightarrow> Some v
      | None \<Rightarrow> if fst c = param \<and> snd (snd c) = ESP_OK then Some (fst (snd c)) else None)"

text \<open>
  A fade of 20 ms to \<open>scene_a\<close> started one second after boot, ticked every 10 ms by a
  driver whose transmission burst takes 100 microseconds; the sink accepts everything.
\<close>

definition short_fade_session :: fade_state_internal where
  "short_fade_session =
     snd (fade_controller_start (Some \<lparr>target = scene_a, duration_ms = 20\<rparr>) 1000000 ready_session)"

definition short_fade_tick1 :: "esp_err \<times> fade_state_internal \<times> tx_attempt list" where
  "short_fade_tick1 = fade_controller_tick sink_ok 1010000 1010100 short_fade_session"

definition short_fade_tick2 :: "esp_err \<times> fade_state_internal \<times> tx_attempt list" where
  "short_fade_tick2 = fade_controller_tick sink_ok 1020000 1020100 (fst (snd short_fade_tick1))"

lemma short_fade_session_simps [simp]:
  "initialized short_fade_session" "state short_fade_session = FADE_STATE_FADING"
  "start_v short_fade_session = zero_lighting" "target_v short_fade_session = scene_a"
  "duration short_fade_session = 20" "fade_start_us short_fade_session = 1000000"
  "last_tx_us short_fade_session = 0" "tx_pending short_fade_session"
  "next_param_index short_fade_session = 0"
  by (simp_all add: short_fade_session_def fade_controller_start_def Let_def)

lemma float_of_u32_10 [simp]: "float_of_u32 10 = 10"
  by (subst float_of_u32_small) simp_all

lemma float_of_u32_20 [simp]: "float_of_u32 20 = 20"
  by (subst float_of_u32_small) simp_all

lemma roundf_zero [simp]: "roundf 0 = 0"
proof -
  have "\<lfloor>1 / 2 :: rat\<rfloor> = 0" by (simp add: floor_eq_iff)
  then show ?thesis by (simp add: roundf_def)
qed

lemma interp_int_dark:
  "get_param (start_v s) i = 0 \<Longrightarrow> get_param (target_v s) i = 0 \<Longrightarrow> interp_int p s i = 0"
  by (simp add: interp_int_def interp_val_def float_of_u8_def fsub_def fmul_def fadd_def
        uint8_cast_def)

lemma short_fade_progress1: "fade_progress short_fade_session 1010000 = 1 / 2"
proof -
  have "elapsed_ms short_fade_session 1010000 = of_nat 10"
    by (intro elapsed_ms_window) simp_all
  then show ?thesis by (simp add: fade_progress_def fdiv_def)
qed

lemma short_fade_values1:
  "tick_values short_fade_session 1010000 =
     \<lparr>brightness = 128, red = 0, green = 0, blue = 0, white = 0\<rparr>"
  unfolding tick_values_def short_fade_progress1 interpolate_current
  by (simp add: interp_half_brightness interp_int_dark zero_lighting_def scene_a_def)

lemma short_fade_calls1:
  "snd (snd short_fade_tick1) =
     [(LIGHT_PARAM_BRIGHTNESS, 128, ESP_OK), (LIGHT_PARAM_RED, 0, ESP_OK),
      (LIGHT_PARAM_GREEN, 0, ESP_OK), (LIGHT_PARAM_BLUE, 0, ESP_OK),
      (LIGHT_PARAM_WHITE, 0, ESP_OK)]"
  unfolding short_fade_tick1_def tick_calls
  by (simp add: round_starts_pending MIN_TX_INTERVAL_MS_def
      short_fade_values1 [unfolded tick_values_def]
      tx_loop.simps LIGHT_PARAM_COUNT_def TX_ORDER_def transmit_param_def sink_ok_def Let_def)

lemma short_fade_tick1_simps [simp]:
  "initialized (fst (snd short_fade_tick1))" "state (fst (snd short_fade_tick1)) = FADE_STATE_FADING"
  "target_v (fst (snd short_fade_tick1)) = scene_a" "duration (fst (snd short_fade_tick1)) = 20"
  "fade_start_us (fst (snd short_fade_tick1)) = 1000000"
  "last_tx_us (fst (snd short_fade_tick1)) = 1010100"
  "\<not> tx_pending (fst (snd short_fade_tick1))" "next_param_index (fst (snd short_fade_tick1)) = 0"
  "current (fst (snd short_fade_tick1)) = \<lparr>brightness = 128, red = 0, green = 0, blue = 0, white = 0\<rparr>"
  unfolding short_fade_tick1_def
  by (simp_all add: tick_fading tick_current short_fade_values1 short_fade_progress1
      round_starts_pending MIN_TX_INTERVAL_MS_def check_complete_def
      tx_round_fields tx_round_last_tx tx_round_pending tx_round_index interpolate_fields
      short_fade_values1 [unfolded tick_values_def short_fade_progress1]
      tx_loop.simps LIGHT_PARAM_COUNT_def TX_ORDER_def transmit_param_def sink_ok_def Let_def)

lemma short_fade_progress2: "fade_progress (fst (snd short_fade_tick1)) 1020000 = 1"
proof -
  have "elapsed_ms (fst (snd short_fade_tick1)) 1020000 = of_nat 20"
    by (intro elapsed_ms_window) simp_all
  then show ?thesis by (simp add: fade_progress_def fdiv_def)
qed

lemma short_fade_blocked: "\<not> round_starts (fst (snd short_fade_tick1)) 1020000"
  by (simp add: round_starts_def tx_gate_def interpolate_fields MIN_TX_INTERVAL_MS_def)

text \<open>
  Rounding to binary32 is monotonic, so an interpolated value lies between the start and
  the target value of its channel, and the value converted to \<open>uint8_t\<close> is in range.
\<close>

lemma fl_minus: "fl (- x) = - fl x"
  by (simp add: fl_def Let_def)

lemma fl_pos: "0 < x \<Longrightarrow> 0 < fl x"
proof -
  assume "0 < x"
  then have "2 powi ilog2 x \<le> fl x" by (rule fl_range(1))
  moreover have "(0::rat) < 2 powi ilog2 x" by simp
  ultimately show ?thesis by linarith
qed

lemma fl_mono: "x \<le> y \<Longrightarrow> fl x \<le> fl y"
proof -
  assume le: "x \<le> y"
  consider (pos) "0 < x" | (neg) "y < 0" | (mid) "x \<le> 0" "0 \<le> y" by linarith
  then show ?thesis
  proof cases
    case pos
    then show ?thesis using le by (rule fl_mono_pos)
  next
    case neg
    then have "0 < - y" "- y \<le> - x" using le by simp_all
    then have "fl (- y) \<le> fl (- x)" by (rule fl_mono_pos)
    then show ?thesis by (simp add: fl_minus)
  next
    case mid
    have a: "fl x \<le> 0"
    proof (cases "x = 0")
      case True
      then show ?thesis by simp
    next
      case False
      with mid have "0 < - x" by simp
      then have "0 < fl (- x)" by (rule fl_pos)
      then show ?thesis by (simp add: fl_minus)
    qed
    have b: "0 \<le> fl y"
    proof (cases "y = 0")
      case True
      then show ?thesis by simp
    next
      case False
      with mid have "0 < y" by simp
      then have "0 < fl y" by (rule fl_pos)
      then show ?thesis by simp
    qed
    from a b show ?thesis by linarith
  qed
qed

lemma float_of_u8_range: "0 \<le> float_of_u8 v \<and> float_of_u8 v \<le> 255"
proof -
  have "unat v \<le> 255" using unat_u8_bound [of v] by simp
  then have "(of_nat (unat v) :: rat) \<le> of_nat 255" by (rule of_nat_mono)
  moreover have "(0::rat) \<le> of_nat (unat v)" by (rule of_nat_0_le_iff)
  ultimately show ?thesis unfolding float_of_u8_def by simp
qed

lemma fade_progress_nonneg: "0 \<le> fade_progress s now_us"
proof -
  have u: "\<And>w. 0 \<le> float_of_u32 w"
  proof -
    fix w :: u32
    have "(0::rat) \<le> of_nat (unat w)" by (rule of_nat_0_le_iff)
    then have "fl 0 \<le> fl (of_nat (unat w))" by (rule fl_mono)
    then show "0 \<le> float_of_u32 w" by (simp add: float_of_u32_def)
  qed
  have "0 \<le> float_of_u32 (elapsed_ms s now_us) / float_of_u32 (duration s)"
    using u by simp
  then have "fl 0 \<le> fdiv (float_of_u32 (elapsed_ms s now_us)) (float_of_u32 (duration s))"
    unfolding fdiv_def by (rule fl_mono)
  then show ?thesis by (simp add: fade_progress_def Let_def)
qed

lemma interp_val_between:
  assumes "0 \<le> p" "p \<le> 1"
  shows "min (float_of_u8 (get_param (start_v s) i)) (float_of_u8 (get_param (target_v s) i))
           \<le> interp_val p s i \<and>
         interp_val p s i
           \<le> max (float_of_u8 (get_param (start_v s) i)) (float_of_u8 (get_param (target_v s) i))"
proof -
  let ?a = "float_of_u8 (get_param (start_v s) i)" and ?b = "float_of_u8 (get_param (target_v s) i)"
  let ?d = "?b - ?a"
  let ?m = "fmul (fsub ?b ?a) p"
  have d: "fsub ?b ?a = ?d" by (rule fsub_u8)
  have fd: "fl ?d = ?d" using d by (simp add: fsub_def)
  have lo: "min 0 ?d \<le> ?m"
  proof -
    have "min 0 ?d \<le> ?d * p"
      using assms by (cases "0 \<le> ?d") (simp_all add: min_def mult_nonneg_nonneg mult_left_le
          mult_nonpos_nonneg)
    then have "fl (min 0 ?d) \<le> fl (?d * p)" by (rule fl_mono)
    moreover have "fl (min 0 ?d) = min 0 ?d" using fd by (simp add: min_def)
    ultimately show ?thesis unfolding d fmul_def by simp
  qed
  have hi: "?m \<le> max 0 ?d"
  proof -
    have "?d * p \<le> max 0 ?d"
      using assms by (cases "0 \<le> ?d") (simp_all add: max_def mult_left_le mult_nonpos_nonneg
          mult_nonneg_nonneg)
    then have "fl (?d * p) \<le> fl (max 0 ?d)" by (rule fl_mono)
    moreover have "fl (max 0 ?d) = max 0 ?d" using fd by (simp add: max_def)
    ultimately show ?thesis unfolding d fmul_def by simp
  qed
  have "fl (min ?a ?b) \<le> fl (?a + ?m)" using lo by (intro fl_mono) (simp add: min_def split: if_splits)
  moreover have "fl (?a + ?m) \<le> fl (max ?a ?b)" using hi by (intro fl_mono) (simp add: max_def split: if_splits)
  moreover have "fl (min ?a ?b) = min ?a ?b" by (simp add: min_def)
  moreover have "fl (max ?a ?b) = max ?a ?b" by (simp add: max_def)
  ultimately show ?thesis unfolding interp_val_def fadd_def by simp
qed

lemma roundf_mono: "x \<le> y \<Longrightarrow> roundf x \<le> roundf y"
  unfolding roundf_def by (auto intro!: floor_mono) linarith

lemma committed_value_in_range:
  "0 \<le> roundf (interp_val (fade_progress s now_us) s i) \<and>
   roundf (interp_val (fade_progress s now_us) s i) \<le> 255"
proof -
  let ?v = "interp_val (fade_progress s now_us) s i"
  note b = interp_val_between [of "fade_progress s now_us" s i,
      OF fade_progress_nonneg fade_progress_le_one]
  have v: "0 \<le> ?v" "?v \<le> of_nat 255"
    using b float_of_u8_range [of "get_param (start_v s) i"]
      float_of_u8_range [of "get_param (target_v s) i"] by (simp_all add: min_def max_def split: if_splits)
  have "roundf 0 \<le> roundf ?v" using v(1) by (rule roundf_mono)
  moreover have "roundf ?v \<le> roundf (of_nat 255)" using v(2) by (rule roundf_mono)
  ultimately show ?thesis unfolding roundf_of_nat by simp
qed

text \<open>
  At progress 1 the interpolation itself commits the target.  The branch of lines 304 to 308,
  which forces \<open>current\<close> to the target and requests one more round, is therefore never
  taken: a tick at progress 1 never sets \<open>tx_pending\<close>.  The completion check compares the
  target with the committed value, not with the value last transmitted.
\<close>

lemma snap_branch_not_taken:
  assumes "initialized s" "state s = FADE_STATE_FADING" "1 \<le> fade_progress s now_us"
  shows "current (fst (snd (fade_controller_tick snk now_us tx_us s))) = target_v s \<and>
         tx_pending (fst (snd (fade_controller_tick snk now_us tx_us s))) =
           (tx_pending s \<and>
            (round_starts s now_us \<longrightarrow>
               fst (tx_loop snk (target_v s) (next_param_index s) False) < LIGHT_PARAM_COUNT))"
proof -
  have p: "fade_progress s now_us = 1"
    using assms(3) fade_progress_le_one [of s now_us] by simp
  show ?thesis
    unfolding tick_fading [OF assms(1,2)] p
    by (simp add: check_complete_def all_at_target_iff tx_round_fields tx_round_pending
        tx_round_index interpolate_fields interpolate_one_current)
qed

section \<open>Runs of the controller\<close>

text \<open>
  A run is a list of calls of the public interface, each with the clock values it reads.
  \<open>CallTick snk now_us tx_us\<close> is a tick during which the sink behaves as \<open>snk\<close>.
\<close>

datatype call =
    CallInit
  | CallStart "fade_params option" int
  | CallApplyImmediate "lighting_state option" int
  | CallTick sink int int
  | CallAbort
  | CallSetCurrent "lighting_state option"

fun do_call :: "call \<Rightarrow> fade_state_internal \<Rightarrow> fade_state_internal" where
  "do_call CallInit s = snd (fade_controller_init s)"
| "do_call (CallStart params now_us) s = snd (fade_controller_start params now_us s)"
| "do_call (CallApplyImmediate st now_us) s = snd (fade_controller_apply_immediate st now_us s)"
| "do_call (CallTick snk now_us tx_us) s = fst (snd (fade_controller_tick snk now_us tx_us s))"
| "do_call CallAbort s = fade_controller_abort s"
| "do_call (CallSetCurrent st) s = snd (fade_controller_set_current st s)"

text \<open>
  A round record is what the sink observes of one tick: the time \<open>now_us\<close> of a tick that
  called the sink, and the calls it made.  A tick that makes no call contributes no record.
\<close>

type_synonym round = "int \<times> tx_attempt list"

fun round_of_call :: "call \<Rightarrow> fade_state_internal \<Rightarrow> round list" where
  "round_of_call (CallTick snk now_us tx_us) s =
     (if snd (snd (fade_controller_tick snk now_us tx_us s)) = [] then []
      else [(now_us, snd (snd (fade_controller_tick snk now_us tx_us s)))])"
| "round_of_call c s = []"

fun rounds_of :: "call list \<Rightarrow> fade_state_internal \<Rightarrow> round list" where
  "rounds_of [] s = []"
| "rounds_of (c # cs) s = round_of_call c s @ rounds_of cs (do_call c s)"

text \<open>The clock is monotonic: the values read along a run never decrease.\<close>

fun clock_step_ok :: "int \<Rightarrow> call \<Rightarrow> bool" where
  "clock_step_ok t (CallTick snk now_us tx_us) = (t \<le> now_us \<and> now_us \<le> tx_us)"
| "clock_step_ok t (CallStart params now_us) = (t \<le> now_us)"
| "clock_step_ok t (CallApplyImmediate st now_us) = (t \<le> now_us)"
| "clock_step_ok t c = True"

fun clock_after :: "int \<Rightarrow> call \<Rightarrow> int" where
  "clock_after t (CallTick snk now_us tx_us) = tx_us"
| "clock_after t (CallStart params now_us) = now_us"
| "clock_after t (CallApplyImmediate st now_us) = now_us"
| "clock_after t c = t"

fun clock_ok :: "int \<Rightarrow> call list \<Rightarrow> bool" where
  "clock_ok t [] = True"
| "clock_ok t (c # cs) = (clock_step_ok t c \<and> clock_ok (clock_after t c) cs)"

definition any_accepted :: "tx_attempt list \<Rightarrow> bool" where
  "any_accepted calls = list_ex (\<lambda>c. snd (snd c) = ESP_OK) calls"

text \<open>
  \<open>spaced\<close>: every round in which the sink accepted a channel is followed only by rounds that
  begin at least the minimum interval after it began.  \<open>min_interval_apart\<close>: any two of the
  given times, in order, are at least the minimum interval apart.
\<close>

fun spaced :: "round list \<Rightarrow> bool" where
  "spaced [] = True"
| "spaced (r # rs) =
     ((any_accepted (snd r) \<longrightarrow>
         list_all (\<lambda>r'. fst r + MIN_TX_INTERVAL_MS * 1000 \<le> fst r') rs) \<and>
      spaced rs)"

fun min_interval_apart :: "int list \<Rightarrow> bool" where
  "min_interval_apart [] = True"
| "min_interval_apart (t # ts) =
     (list_all (\<lambda>t'. t + MIN_TX_INTERVAL_MS * 1000 \<le> t') ts \<and> min_interval_apart ts)"

text \<open>A round begins with a call for the first channel of \<open>TX_ORDER\<close>; any other record
  continues a round that was halted earlier.\<close>

definition begins_round :: "round \<Rightarrow> bool" where
  "begins_round r = (case snd r of [] \<Rightarrow> False | c # cs \<Rightarrow> fst c = hd TX_ORDER)"

definition round_begin_times :: "round list \<Rightarrow> int list" where
  "round_begin_times rs = map fst (filter begins_round rs)"

text \<open>The channels called and the result codes, without the values.\<close>

definition call_codes :: "round \<Rightarrow> (light_param \<times> esp_err) list" where
  "call_codes r = map (\<lambda>c. (fst c, snd (snd c))) (snd r)"

lemma tx_loop_any_sent:
  "fst (snd (tx_loop snk cur idx a)) = (a \<or> any_accepted (snd (snd (tx_loop snk cur idx a))))"
proof (induction "LIGHT_PARAM_COUNT - idx" arbitrary: idx a)
  case 0
  then show ?case by (simp add: any_accepted_def)
next
  case (Suc n)
  then have lt: "idx < LIGHT_PARAM_COUNT" by simp
  from Suc have ih: "\<And>b. fst (snd (tx_loop snk cur (Suc idx) b)) =
      (b \<or> any_accepted (snd (snd (tx_loop snk cur (Suc idx) b))))"
    by simp
  show ?case unfolding tx_loop_step [OF lt]
    by (auto simp: Let_def ih any_accepted_def)
qed

lemma tick_initialized [simp]:
  "initialized (fst (snd (fade_controller_tick snk now_us tx_us s))) = initialized s"
  by (cases "state s")
     (simp_all add: fade_controller_tick_def Let_def check_complete_fields tx_round_fields
        interpolate_fields)

lemma tick_last_tx:
  "last_tx_us (fst (snd (fade_controller_tick snk now_us tx_us s))) =
     (if round_starts s now_us \<and> any_accepted (snd (snd (fade_controller_tick snk now_us tx_us s)))
      then tx_us else last_tx_us s)"
  unfolding tick_calls
  by (cases "state s")
     (simp_all add: fade_controller_tick_def round_starts_def Let_def check_complete_fields
        tx_round_last_tx interpolate_fields tx_loop_any_sent [of _ _ _ False])

lemma calls_imp_round_starts:
  "snd (snd (fade_controller_tick snk now_us tx_us s)) \<noteq> [] \<Longrightarrow> round_starts s now_us"
  unfolding tick_calls by (simp split: if_splits)

lemma do_call_initialized: "initialized s \<Longrightarrow> initialized (do_call c s)"
  by (cases c)
     (simp_all add: fade_controller_init_def fade_controller_start_def
        fade_controller_apply_immediate_def fade_controller_abort_def
        fade_controller_set_current_def Let_def split: option.splits)

lemma do_call_last_tx_mono:
  "initialized s \<Longrightarrow> last_tx_us s \<le> t \<Longrightarrow> clock_step_ok t c \<Longrightarrow>
   last_tx_us s \<le> last_tx_us (do_call c s)"
  by (cases c)
     (simp_all add: fade_controller_init_def fade_controller_start_def
        fade_controller_apply_immediate_def fade_controller_abort_def
        fade_controller_set_current_def tick_last_tx Let_def split: option.splits)

lemma do_call_last_tx_clock:
  "0 \<le> t \<Longrightarrow> last_tx_us s \<le> t \<Longrightarrow> clock_step_ok t c \<Longrightarrow>
   last_tx_us (do_call c s) \<le> clock_after t c \<and> 0 \<le> clock_after t c"
  by (cases c)
     (auto simp: fade_controller_init_def fade_controller_start_def
        fade_controller_apply_immediate_def fade_controller_abort_def
        fade_controller_set_current_def tick_last_tx Let_def zero_session_def split: option.splits)

lemma round_starts_gate:
  "round_starts s now_us \<Longrightarrow> initialized s \<and> last_tx_us s + MIN_TX_INTERVAL_MS * 1000 \<le> now_us"
  by (simp add: round_starts_def tx_gate_def interpolate_fields)

lemma rounds_after_last_tx:
  "initialized s \<Longrightarrow> last_tx_us s \<le> t \<Longrightarrow> clock_ok t cs \<Longrightarrow>
   list_all (\<lambda>r. last_tx_us s + MIN_TX_INTERVAL_MS * 1000 \<le> fst r) (rounds_of cs s)"
proof (induction cs arbitrary: s t)
  case Nil
  then show ?case by simp
next
  case (Cons c cs)
  have i1: "initialized (do_call c s)" using Cons.prems(1) by (rule do_call_initialized)
  have m: "last_tx_us s \<le> last_tx_us (do_call c s)"
    using Cons.prems by (intro do_call_last_tx_mono [of s t c]) simp_all
  have c1: "last_tx_us (do_call c s) \<le> clock_after t c"
  proof (cases c)
    case (CallTick snk now_us tx_us)
    then show ?thesis using Cons.prems by (simp add: tick_last_tx)
  qed (use Cons.prems in \<open>simp_all add: fade_controller_init_def fade_controller_start_def
        fade_controller_apply_immediate_def fade_controller_abort_def
        fade_controller_set_current_def Let_def split: option.splits\<close>)
  have "list_all (\<lambda>r. last_tx_us (do_call c s) + MIN_TX_INTERVAL_MS * 1000 \<le> fst r)
      (rounds_of cs (do_call c s))"
    using Cons.IH [OF i1 c1] Cons.prems(3) by simp
  then have tl: "list_all (\<lambda>r. last_tx_us s + MIN_TX_INTERVAL_MS * 1000 \<le> fst r)
      (rounds_of cs (do_call c s))"
    using m by (auto simp: list_all_iff)
  have hd: "list_all (\<lambda>r. last_tx_us s + MIN_TX_INTERVAL_MS * 1000 \<le> fst r) (round_of_call c s)"
    by (cases c) (auto dest: calls_imp_round_starts round_starts_gate)
  from hd tl show ?case by simp
qed

lemma do_call_cursor:
  "next_param_index s < LIGHT_PARAM_COUNT \<Longrightarrow> next_param_index (do_call c s) < LIGHT_PARAM_COUNT"
proof (cases c)
  case (CallTick snk now_us tx_us)
  assume a: "next_param_index s < LIGHT_PARAM_COUNT"
  then have "fst (tx_loop snk (tick_values s now_us) (next_param_index s) False) \<le> LIGHT_PARAM_COUNT"
    using tx_loop_index [of "next_param_index s" snk "tick_values s now_us" False] by simp
  then show ?thesis using a unfolding CallTick
    by (simp add: tick_index tick_values_def Let_def LIGHT_PARAM_COUNT_def)
qed (simp_all add: fade_controller_init_def fade_controller_start_def
        fade_controller_apply_immediate_def fade_controller_abort_def
        fade_controller_set_current_def Let_def zero_session_def LIGHT_PARAM_COUNT_def
        split: option.splits)

text \<open>
  The repository's sink with the node down (not running) and up, and two runs: a scene
  applied, fully sent, and a second scene applied 22 ms later; and the same first scene
  applied while the node is down for one tick.
\<close>

definition node_down :: sink where
  "node_down = lcc_sink (\<lambda>parameter. False) 0"

definition node_up :: sink where
  "node_up = lcc_sink (\<lambda>parameter. True) 0"

definition sent_session :: fade_state_internal where
  "sent_session = fst (snd (fade_controller_tick node_up 20000 20050 applied_session))"

definition reapplied_session :: fade_state_internal where
  "reapplied_session =
     snd (fade_controller_apply_immediate (Some zero_lighting) 22000
       (fst (snd (fade_controller_tick node_up 21000 21000 sent_session))))"

definition deferred_session :: fade_state_internal where
  "deferred_session = fst (snd (fade_controller_tick node_up 25000 25000 reapplied_session))"

definition two_scene_run :: "call list" where
  "two_scene_run =
     [CallApplyImmediate (Some scene_a) 0,
      CallTick node_up 20000 20050,
      CallTick node_up 21000 21000,
      CallApplyImmediate (Some zero_lighting) 22000,
      CallTick node_up 25000 25000,
      CallTick node_up 30050 30100]"

definition down_session :: fade_state_internal where
  "down_session = fst (snd (fade_controller_tick node_down 20000 20000 applied_session))"

definition node_down_run :: "call list" where
  "node_down_run =
     [CallApplyImmediate (Some scene_a) 0,
      CallTick node_down 20000 20000,
      CallTick node_up 20001 20001]"

definition node_down_restart_run :: "call list" where
  "node_down_restart_run =
     [CallApplyImmediate (Some scene_a) 0,
      CallTick node_down 20000 20000,
      CallApplyImmediate (Some zero_lighting) 20000,
      CallTick node_up 20001 20001]"

lemma tx_loop_node_up:
  "tx_loop node_up cur 0 False =
     (5, True, map (\<lambda>p. (p, get_param cur p, ESP_OK)) TX_ORDER)"
  by (simp add: tx_loop.simps LIGHT_PARAM_COUNT_def TX_ORDER_def transmit_param_lcc_sink node_up_def
        Let_def)

lemma tx_loop_node_down:
  "tx_loop node_down cur 0 False =
     (0, False, [(LIGHT_PARAM_BRIGHTNESS, brightness cur, ESP_ERR_INVALID_STATE)])"
  by (simp add: tx_loop.simps LIGHT_PARAM_COUNT_def TX_ORDER_def transmit_param_lcc_sink
        node_down_def Let_def)

lemmas tick_eval =
  tick_fading round_starts_pending MIN_TX_INTERVAL_MS_def check_complete_def all_at_target_iff
  tx_round_fields tx_round_last_tx tx_round_pending tx_round_index interpolate_fields
  interpolate_one_current tx_loop_node_up tx_loop_node_down LIGHT_PARAM_COUNT_def

lemma sent_session_simps [simp]:
  "initialized sent_session" "state sent_session = FADE_STATE_COMPLETE"
  "last_tx_us sent_session = 20050" "next_param_index sent_session = 0"
  unfolding sent_session_def by (simp_all add: tick_eval)

lemma sent_calls:
  "snd (snd (fade_controller_tick node_up 20000 20050 applied_session)) =
     map (\<lambda>p. (p, get_param scene_a p, ESP_OK)) TX_ORDER"
  unfolding tick_calls by (simp add: tick_eval)

lemma idle_tick:
  "fade_controller_tick node_up 21000 21000 sent_session =
     (ESP_OK, sent_session\<lparr>state := FADE_STATE_IDLE\<rparr>, [])"
  by (simp add: fade_controller_tick_def)

lemma reapplied_session_simps [simp]:
  "initialized reapplied_session" "state reapplied_session = FADE_STATE_FADING"
  "last_tx_us reapplied_session = 20050" "next_param_index reapplied_session = 0"
  "tx_pending reapplied_session" "duration reapplied_session = 0"
  "target_v reapplied_session = zero_lighting"
  unfolding reapplied_session_def idle_tick
  by (simp_all add: fade_controller_apply_immediate_def fade_controller_start_def Let_def)

lemma deferred_calls:
  "snd (snd (fade_controller_tick node_up 25000 25000 reapplied_session)) = []"
  unfolding tick_calls by (simp add: tick_eval)

lemma deferred_session_simps [simp]:
  "initialized deferred_session" "state deferred_session = FADE_STATE_FADING"
  "last_tx_us deferred_session = 20050" "next_param_index deferred_session = 0"
  "tx_pending deferred_session" "duration deferred_session = 0"
  "target_v deferred_session = zero_lighting"
  unfolding deferred_session_def by (simp_all add: tick_eval)

lemma second_calls:
  "snd (snd (fade_controller_tick node_up 30050 30100 deferred_session)) =
     map (\<lambda>p. (p, get_param zero_lighting p, ESP_OK)) TX_ORDER"
  unfolding tick_calls by (simp add: tick_eval)

lemma two_scene_rounds:
  "rounds_of two_scene_run ready_session =
     [(20000, map (\<lambda>p. (p, get_param scene_a p, ESP_OK)) TX_ORDER),
      (30050, map (\<lambda>p. (p, get_param zero_lighting p, ESP_OK)) TX_ORDER)]"
proof -
  have f1: "snd (fade_controller_apply_immediate (Some scene_a) 0 ready_session) = applied_session"
    by (simp add: applied_session_def)
  have f2: "fst (snd (fade_controller_tick node_up 20000 20050 applied_session)) = sent_session"
    by (simp add: sent_session_def)
  have f3: "snd (fade_controller_apply_immediate (Some zero_lighting) 22000
       (fst (snd (fade_controller_tick node_up 21000 21000 sent_session)))) = reapplied_session"
    by (simp add: reapplied_session_def)
  have f4: "fst (snd (fade_controller_tick node_up 25000 25000 reapplied_session)) = deferred_session"
    by (simp add: deferred_session_def)
  have i: "snd (snd (fade_controller_tick node_up 21000 21000 sent_session)) = []"
    by (simp add: idle_tick)
  show ?thesis
    unfolding two_scene_run_def
    by (simp add: f1 f2 f3 f4 i sent_calls deferred_calls second_calls TX_ORDER_def)
qed

lemma down_session_simps [simp]:
  "initialized down_session" "state down_session = FADE_STATE_FADING"
  "last_tx_us down_session = 0" "next_param_index down_session = 0"
  "tx_pending down_session" "duration down_session = 0" "target_v down_session = scene_a"
  unfolding down_session_def by (simp_all add: tick_eval)

lemma down_calls:
  "snd (snd (fade_controller_tick node_down 20000 20000 applied_session)) =
     [(LIGHT_PARAM_BRIGHTNESS, 255, ESP_ERR_INVALID_STATE)]"
  unfolding tick_calls by (simp add: tick_eval scene_a_def)

lemma up_calls:
  "snd (snd (fade_controller_tick node_up 20001 20001 down_session)) =
     map (\<lambda>p. (p, get_param scene_a p, ESP_OK)) TX_ORDER"
  unfolding tick_calls by (simp add: tick_eval)

lemma restart_calls:
  "snd (snd (fade_controller_tick node_up 20001 20001
     (snd (fade_controller_apply_immediate (Some zero_lighting) 20000 down_session)))) =
     map (\<lambda>p. (p, get_param zero_lighting p, ESP_OK)) TX_ORDER"
  unfolding tick_calls
  by (simp add: tick_eval fade_controller_apply_immediate_def fade_controller_start_def Let_def)

section \<open>Initialisation\<close>

text \<open>
  C10.  \<open>init\<close> is idempotent: on an initialized controller it returns \<open>ESP_OK\<close> and leaves
  the whole session record unchanged; the first \<open>init\<close> returns \<open>ESP_OK\<close>, zeroes the session
  and sets the state to IDLE (and the initialized flag).
\<close>

theorem init_idempotent:
  "(initialized s \<longrightarrow> fade_controller_init s = (ESP_OK, s)) \<and>
   (\<not> initialized s \<longrightarrow>
      fade_controller_init s =
        (ESP_OK, zero_session\<lparr>state := FADE_STATE_IDLE, initialized := True\<rparr>) \<and>
      fade_controller_init (snd (fade_controller_init s)) = fade_controller_init s)"
  by (simp add: fade_controller_init_def)

theorem init_idempotent_witness:
  "initialized (zero_session\<lparr>initialized := True, duration := 7, next_param_index := 3\<rparr>) \<and>
   fade_controller_init (zero_session\<lparr>initialized := True, duration := 7, next_param_index := 3\<rparr>)
     = (ESP_OK, zero_session\<lparr>initialized := True, duration := 7, next_param_index := 3\<rparr>) \<and>
   \<not> initialized zero_session \<and>
   fade_controller_init zero_session =
     (ESP_OK, zero_session\<lparr>state := FADE_STATE_IDLE, initialized := True\<rparr>)"
proof -
  let ?s = "zero_session\<lparr>initialized := True, duration := 7, next_param_index := 3\<rparr>"
  have a: "initialized ?s" by simp
  have b: "\<not> initialized zero_session" by (simp add: zero_session_def)
  note c = init_idempotent [of ?s, THEN conjunct1, rule_format, OF a]
  note d = init_idempotent [of zero_session, THEN conjunct2, rule_format, OF b, THEN conjunct1]
  from a b c d show ?thesis by blast
qed

section \<open>Transmission order\<close>

text \<open>
  C2.  The calls made to the sink by one tick are a run of consecutive entries of
  \<open>TX_ORDER\<close> (brightness, red, green, blue, white) that starts at the cursor
  \<open>next_param_index\<close>; the channels the sink accepted are therefore in the relative order of
  \<open>TX_ORDER\<close>, whatever the sink answered for the other channels.  The cursor advances by
  one for every call that was accepted or skipped and returns to 0 after the fifth channel,
  so a round that is spread over several ticks continues where it stopped.
\<close>

theorem tx_fixed_order:
  "TX_ORDER = [LIGHT_PARAM_BRIGHTNESS, LIGHT_PARAM_RED, LIGHT_PARAM_GREEN, LIGHT_PARAM_BLUE,
     LIGHT_PARAM_WHITE] \<and>
   map fst (snd (snd (fade_controller_tick snk now_us tx_us s))) =
     take (length (snd (snd (fade_controller_tick snk now_us tx_us s))))
       (drop (next_param_index s) TX_ORDER) \<and>
   subseq (map fst (filter (\<lambda>c. snd (snd c) = ESP_OK)
              (snd (snd (fade_controller_tick snk now_us tx_us s))))) TX_ORDER \<and>
   (next_param_index s < LIGHT_PARAM_COUNT \<longrightarrow>
      next_param_index (fst (snd (fade_controller_tick snk now_us tx_us s))) =
        (next_param_index s +
           length (filter (\<lambda>c. snd (snd c) \<noteq> ESP_ERR_INVALID_STATE)
             (snd (snd (fade_controller_tick snk now_us tx_us s))))) mod LIGHT_PARAM_COUNT)"
proof -
  let ?calls = "snd (snd (fade_controller_tick snk now_us tx_us s))"
  have a: "map fst ?calls = take (length ?calls) (drop (next_param_index s) TX_ORDER)"
    unfolding tick_calls by (simp add: tx_loop_channels)
  have "subseq (map fst (filter (\<lambda>c. snd (snd c) = ESP_OK) ?calls)) (map fst ?calls)"
    by (intro subseq_map subseq_filter_left)
  moreover have "subseq (map fst ?calls) TX_ORDER"
    by (subst a) (intro sublist_imp_subseq sublist_order.order_trans [OF sublist_take sublist_drop])
  ultimately have b: "subseq (map fst (filter (\<lambda>c. snd (snd c) = ESP_OK) ?calls)) TX_ORDER"
    by (rule subseq_order.order_trans)
  have c: "next_param_index (fst (snd (fade_controller_tick snk now_us tx_us s))) =
      (next_param_index s + length (filter (\<lambda>c. snd (snd c) \<noteq> ESP_ERR_INVALID_STATE) ?calls))
        mod LIGHT_PARAM_COUNT"
    if lt: "next_param_index s < LIGHT_PARAM_COUNT"
  proof (cases "round_starts s now_us")
    case True
    let ?cur = "current (fst (interpolate (fade_progress s now_us) s))"
    let ?r = "tx_loop snk ?cur (next_param_index s) False"
    have adv: "fst ?r = next_param_index s +
        length (filter (\<lambda>c. snd (snd c) \<noteq> ESP_ERR_INVALID_STATE) (snd (snd ?r)))"
      using lt by (intro tx_loop_advance) simp
    have le: "fst ?r \<le> LIGHT_PARAM_COUNT"
      using lt tx_loop_index [of "next_param_index s" snk ?cur False] by simp
    show ?thesis
    proof (cases "fst ?r = LIGHT_PARAM_COUNT")
      case True
      with \<open>round_starts s now_us\<close> adv show ?thesis
        unfolding tick_index tick_calls by (simp add: Let_def)
    next
      case False
      with le have "fst ?r < LIGHT_PARAM_COUNT" by simp
      with \<open>round_starts s now_us\<close> adv show ?thesis
        unfolding tick_index tick_calls by (simp add: Let_def)
    qed
  next
    case False
    then show ?thesis using lt unfolding tick_index tick_calls by simp
  qed
  from a b c show ?thesis by (simp add: TX_ORDER_def)
qed

theorem tx_fixed_order_witness:
  "next_param_index applied_session < LIGHT_PARAM_COUNT \<and>
   map fst (snd (snd (fade_controller_tick (sink_not_ready_on 1) 20000 20000 applied_session))) =
     [LIGHT_PARAM_BRIGHTNESS, LIGHT_PARAM_RED, LIGHT_PARAM_GREEN] \<and>
   next_param_index (fst (snd (fade_controller_tick (sink_not_ready_on 1) 20000 20000 applied_session))) = 2"
proof -
  have h: "next_param_index applied_session < LIGHT_PARAM_COUNT"
    by (simp add: LIGHT_PARAM_COUNT_def)
  note t = tx_fixed_order [of "sink_not_ready_on 1" 20000 20000 applied_session]
  note t1 = t [THEN conjunct2, THEN conjunct1]
  note t2 = t [THEN conjunct2, THEN conjunct2, THEN conjunct2, rule_format, OF h]
  from h t1 t2 show ?thesis
    by (simp add: halted_calls TX_ORDER_def LIGHT_PARAM_COUNT_def)
qed

section \<open>Halting and skipping inside a round\<close>

text \<open>
  C4 (amended).  When a tick transmits (\<open>round_starts\<close>: there is a trigger and at least 10 ms
  have passed since \<open>last_tx_us\<close>) and the sink answers not-ready first at cursor position
  \<open>k\<close>, the channels from the cursor up to \<open>k\<close> are attempted in order and the cursor stays
  at \<open>k\<close>; when the sink never answers not-ready, every channel from the cursor to the last
  one is attempted, whatever other failures occur, and the cursor returns to 0.  A tick that
  does not transmit calls the sink for no channel and keeps the cursor.  Hence the next tick
  that transmits starts at the halted channel and sends no earlier one.
\<close>

theorem tx_halt_and_skip:
  "(round_starts s now_us \<and> next_param_index s \<le> k \<and> k < LIGHT_PARAM_COUNT \<and>
    (\<forall>j. next_param_index s \<le> j \<and> j < k \<longrightarrow> \<not> not_ready_at snk (tick_values s now_us) j) \<and>
    not_ready_at snk (tick_values s now_us) k \<longrightarrow>
      next_param_index (fst (snd (fade_controller_tick snk now_us tx_us s))) = k \<and>
      map fst (snd (snd (fade_controller_tick snk now_us tx_us s))) =
        take (k + 1 - next_param_index s) (drop (next_param_index s) TX_ORDER)) \<and>
   (round_starts s now_us \<and> next_param_index s \<le> LIGHT_PARAM_COUNT \<and>
    (\<forall>j. next_param_index s \<le> j \<and> j < LIGHT_PARAM_COUNT \<longrightarrow>
        \<not> not_ready_at snk (tick_values s now_us) j) \<longrightarrow>
      next_param_index (fst (snd (fade_controller_tick snk now_us tx_us s))) = 0 \<and>
      map fst (snd (snd (fade_controller_tick snk now_us tx_us s))) =
        drop (next_param_index s) TX_ORDER) \<and>
   (\<not> round_starts s now_us \<longrightarrow>
      next_param_index (fst (snd (fade_controller_tick snk now_us tx_us s))) = next_param_index s \<and>
      snd (snd (fade_controller_tick snk now_us tx_us s)) = [])"
proof (intro conjI impI)
  assume a: "round_starts s now_us \<and> next_param_index s \<le> k \<and> k < LIGHT_PARAM_COUNT \<and>
    (\<forall>j. next_param_index s \<le> j \<and> j < k \<longrightarrow> \<not> not_ready_at snk (tick_values s now_us) j) \<and>
    not_ready_at snk (tick_values s now_us) k"
  then have h: "fst (tx_loop snk (tick_values s now_us) (next_param_index s) False) = k \<and>
      length (snd (snd (tx_loop snk (tick_values s now_us) (next_param_index s) False))) =
        k + 1 - next_param_index s"
    by (intro tx_loop_halt) simp_all
  show "next_param_index (fst (snd (fade_controller_tick snk now_us tx_us s))) = k"
    using a h unfolding tick_index tick_values_def by (simp add: Let_def)
  show "map fst (snd (snd (fade_controller_tick snk now_us tx_us s))) =
        take (k + 1 - next_param_index s) (drop (next_param_index s) TX_ORDER)"
    using a h tx_loop_channels [of snk "tick_values s now_us" "next_param_index s" False]
    unfolding tick_calls tick_values_def by simp
next
  assume a: "round_starts s now_us \<and> next_param_index s \<le> LIGHT_PARAM_COUNT \<and>
    (\<forall>j. next_param_index s \<le> j \<and> j < LIGHT_PARAM_COUNT \<longrightarrow>
        \<not> not_ready_at snk (tick_values s now_us) j)"
  then have h: "fst (tx_loop snk (tick_values s now_us) (next_param_index s) False) = LIGHT_PARAM_COUNT \<and>
      length (snd (snd (tx_loop snk (tick_values s now_us) (next_param_index s) False))) =
        LIGHT_PARAM_COUNT - next_param_index s"
    by (intro tx_loop_full) simp_all
  show "next_param_index (fst (snd (fade_controller_tick snk now_us tx_us s))) = 0"
    using a h unfolding tick_index tick_values_def by (simp add: Let_def)
  show "map fst (snd (snd (fade_controller_tick snk now_us tx_us s))) =
        drop (next_param_index s) TX_ORDER"
    using a h tx_loop_channels [of snk "tick_values s now_us" "next_param_index s" False]
    unfolding tick_calls tick_values_def by (simp add: LIGHT_PARAM_COUNT_def TX_ORDER_def)
next
  assume "\<not> round_starts s now_us"
  then show "next_param_index (fst (snd (fade_controller_tick snk now_us tx_us s))) = next_param_index s"
    unfolding tick_index by simp
next
  assume "\<not> round_starts s now_us"
  then show "snd (snd (fade_controller_tick snk now_us tx_us s)) = []"
    unfolding tick_calls by simp
qed


theorem tx_halt_and_skip_witness:
  "round_starts applied_session 20000 \<and>
   not_ready_at (sink_not_ready_on 1) (tick_values applied_session 20000) 2 \<and>
   next_param_index (fst (snd (fade_controller_tick (sink_not_ready_on 1) 20000 20000 applied_session))) = 2 \<and>
   map fst (snd (snd (fade_controller_tick (sink_not_ready_on 1) 20000 20000 applied_session))) =
     [LIGHT_PARAM_BRIGHTNESS, LIGHT_PARAM_RED, LIGHT_PARAM_GREEN] \<and>
   round_starts halted_session 30000 \<and>
   next_param_index (fst (snd (fade_controller_tick sink_ok 30000 30000 halted_session))) = 0 \<and>
   map fst (snd (snd (fade_controller_tick sink_ok 30000 30000 halted_session))) =
     [LIGHT_PARAM_GREEN, LIGHT_PARAM_BLUE, LIGHT_PARAM_WHITE] \<and>
   \<not> round_starts halted_session 25000 \<and>
   snd (snd (fade_controller_tick sink_ok 25000 25000 halted_session)) = []"
proof -
  have r1: "round_starts applied_session 20000"
    by (simp add: round_starts_pending MIN_TX_INTERVAL_MS_def)
  have n1: "\<forall>j. next_param_index applied_session \<le> j \<and> j < 2 \<longrightarrow>
      \<not> not_ready_at (sink_not_ready_on 1) (tick_values applied_session 20000) j"
    unfolding less_two_cases
    by (simp add: not_ready_at_def TX_ORDER_def transmit_param_def sink_not_ready_on_def)
  have n2: "not_ready_at (sink_not_ready_on 1) (tick_values applied_session 20000) 2"
    by (simp add: not_ready_at_def TX_ORDER_def transmit_param_def sink_not_ready_on_def)
  have r2: "round_starts halted_session 30000"
    by (simp add: round_starts_pending MIN_TX_INTERVAL_MS_def)
  have n3: "\<forall>j. next_param_index halted_session \<le> j \<and> j < LIGHT_PARAM_COUNT \<longrightarrow>
      \<not> not_ready_at sink_ok (tick_values halted_session 30000) j"
    by (simp add: not_ready_at_def transmit_param_def sink_ok_def)
  have r3: "\<not> round_starts halted_session 25000"
    by (simp add: round_starts_pending MIN_TX_INTERVAL_MS_def)
  note t1 = tx_halt_and_skip [of applied_session 20000 2 "sink_not_ready_on 1" 20000,
      THEN conjunct1, rule_format]
  note t2 = tx_halt_and_skip [of halted_session 30000 0 sink_ok 30000,
      THEN conjunct2, THEN conjunct1, rule_format]
  note t3 = tx_halt_and_skip [of halted_session 25000 0 sink_ok 25000,
      THEN conjunct2, THEN conjunct2, rule_format, OF r3]
  have a1: "next_param_index (fst (snd (fade_controller_tick (sink_not_ready_on 1) 20000 20000 applied_session))) = 2 \<and>
     map fst (snd (snd (fade_controller_tick (sink_not_ready_on 1) 20000 20000 applied_session))) =
       take (2 + 1 - next_param_index applied_session) (drop (next_param_index applied_session) TX_ORDER)"
    using r1 n1 n2 by (intro t1) (simp add: LIGHT_PARAM_COUNT_def)
  have a2: "next_param_index (fst (snd (fade_controller_tick sink_ok 30000 30000 halted_session))) = 0 \<and>
     map fst (snd (snd (fade_controller_tick sink_ok 30000 30000 halted_session))) =
       drop (next_param_index halted_session) TX_ORDER"
    using r2 n3 by (intro t2) (simp add: LIGHT_PARAM_COUNT_def halted_index)
  from r1 n2 a1 r2 a2 r3 t3 show ?thesis
    by (simp add: TX_ORDER_def halted_index)
qed

text \<open>
  C4 as the specification words it does not hold: after the halt at the third channel at
  20 ms the tick at 25 ms, with a ready sink, makes no call at all (the rate limit defers
  it).
\<close>

theorem next_tick_deferred_counterexample:
  "snd (snd (fade_controller_tick (sink_not_ready_on 1) 20000 20000 applied_session)) =
     [(LIGHT_PARAM_BRIGHTNESS, 255, ESP_OK), (LIGHT_PARAM_RED, 0, ESP_OK),
      (LIGHT_PARAM_GREEN, 0, ESP_ERR_INVALID_STATE)] \<and>
   halted_session = fst (snd (fade_controller_tick (sink_not_ready_on 1) 20000 20000 applied_session)) \<and>
   next_param_index halted_session = 2 \<and>
   state halted_session = FADE_STATE_FADING \<and>
   snd (snd (fade_controller_tick sink_ok 25000 25000 halted_session)) = []"
  using halted_calls
  by (simp add: halted_index tick_calls round_starts_pending MIN_TX_INTERVAL_MS_def)
     (simp add: halted_session_def)


section \<open>Re-targeting, immediate apply and abort\<close>

text \<open>
  C5.  A \<open>start\<close> issued while the session is FADING succeeds and takes the current
  (interpolated) state as the start of the new fade: \<open>start_v\<close> and the float accumulators
  are copied from \<open>current\<close>, the target and the duration come from the parameters, and for
  a non-zero duration \<open>current\<close> itself is unchanged, also after a tick made at the instant of
  the call.
\<close>

theorem start_retarget:
  "initialized s \<and> state s = FADE_STATE_FADING \<longrightarrow>
     fst (fade_controller_start (Some p) now_us s) = ESP_OK \<and>
     start_v (snd (fade_controller_start (Some p) now_us s)) = current s \<and>
     (\<forall>i. current_float (snd (fade_controller_start (Some p) now_us s)) i =
            float_of_u8 (get_param (current s) i)) \<and>
     target_v (snd (fade_controller_start (Some p) now_us s)) = target p \<and>
     duration (snd (fade_controller_start (Some p) now_us s)) = duration_ms p \<and>
     state (snd (fade_controller_start (Some p) now_us s)) = FADE_STATE_FADING \<and>
     (duration_ms p \<noteq> 0 \<longrightarrow>
        current (snd (fade_controller_start (Some p) now_us s)) = current s \<and>
        current (fst (snd (fade_controller_tick snk now_us tx_us
                   (snd (fade_controller_start (Some p) now_us s))))) = current s)"
proof (intro impI)
  assume a: "initialized s \<and> state s = FADE_STATE_FADING"
  let ?s' = "snd (fade_controller_start (Some p) now_us s)"
  have f: "initialized ?s'" "state ?s' = FADE_STATE_FADING" "fade_start_us ?s' = now_us"
    "duration ?s' = duration_ms p" "start_v ?s' = current s"
    using a by (simp_all add: fade_controller_start_def Let_def)
  have t: "duration_ms p \<noteq> 0 \<Longrightarrow>
     current (fst (snd (fade_controller_tick snk now_us tx_us ?s'))) = current s"
  proof -
    assume d: "duration_ms p \<noteq> 0"
    have p0: "fade_progress ?s' now_us = 0"
      using fade_progress_at_start [of ?s'] d f by simp
    show ?thesis
      unfolding tick_fading [OF f(1) f(2)] p0
      by (simp add: check_complete_def tx_round_fields interpolate_zero_current f)
  qed
  show "fst (fade_controller_start (Some p) now_us s) = ESP_OK \<and>
     start_v ?s' = current s \<and>
     (\<forall>i. current_float ?s' i = float_of_u8 (get_param (current s) i)) \<and>
     target_v ?s' = target p \<and> duration ?s' = duration_ms p \<and>
     state ?s' = FADE_STATE_FADING \<and>
     (duration_ms p \<noteq> 0 \<longrightarrow>
        current ?s' = current s \<and>
        current (fst (snd (fade_controller_tick snk now_us tx_us ?s'))) = current s)"
    using a t by (simp add: fade_controller_start_def Let_def)
qed

theorem start_retarget_witness:
  "initialized mid_fade_session \<and> state mid_fade_session = FADE_STATE_FADING \<and>
   duration_ms \<lparr>target = zero_lighting, duration_ms = 500\<rparr> \<noteq> 0 \<and>
   start_v (snd (fade_controller_start (Some \<lparr>target = zero_lighting, duration_ms = 500\<rparr>) 600000
       mid_fade_session)) = \<lparr>brightness = 128, red = 0, green = 0, blue = 0, white = 0\<rparr> \<and>
   current (fst (snd (fade_controller_tick sink_ok 600000 600000
      (snd (fade_controller_start (Some \<lparr>target = zero_lighting, duration_ms = 500\<rparr>) 600000
       mid_fade_session))))) = \<lparr>brightness = 128, red = 0, green = 0, blue = 0, white = 0\<rparr>"
proof -
  have h: "initialized mid_fade_session \<and> state mid_fade_session = FADE_STATE_FADING"
    by (simp add: mid_fade_session_def)
  have d: "duration_ms \<lparr>target = zero_lighting, duration_ms = 500\<rparr> \<noteq> 0" by simp
  have c: "current mid_fade_session = \<lparr>brightness = 128, red = 0, green = 0, blue = 0, white = 0\<rparr>"
    by (simp add: mid_fade_session_def)
  note t = start_retarget [of mid_fade_session "\<lparr>target = zero_lighting, duration_ms = 500\<rparr>"
      600000 sink_ok 600000, rule_format, OF h]
  from t have "start_v (snd (fade_controller_start (Some \<lparr>target = zero_lighting, duration_ms = 500\<rparr>) 600000
       mid_fade_session)) = current mid_fade_session" by blast
  moreover from t d have "current (fst (snd (fade_controller_tick sink_ok 600000 600000
      (snd (fade_controller_start (Some \<lparr>target = zero_lighting, duration_ms = 500\<rparr>) 600000
       mid_fade_session))))) = current mid_fade_session" by blast
  ultimately show ?thesis using h d unfolding c by blast
qed

text \<open>
  C6.  For every lighting state \<open>S\<close>, \<open>apply_immediate\<close> is \<open>start\<close> with target \<open>S\<close> and
  duration 0: same result code and same session.  On an initialized controller the result
  is \<open>ESP_OK\<close>, \<open>current\<close> is \<open>S\<close>, the state is FADING with a full round pending and the cursor
  at 0; otherwise both report the invalid-state error and change nothing.
\<close>

theorem apply_immediate_is_start:
  "fade_controller_apply_immediate (Some S) now_us s = applyImmediate_spec S now_us s \<and>
   (initialized s \<longrightarrow>
      fst (fade_controller_apply_immediate (Some S) now_us s) = ESP_OK \<and>
      current (snd (fade_controller_apply_immediate (Some S) now_us s)) = S \<and>
      state (snd (fade_controller_apply_immediate (Some S) now_us s)) = FADE_STATE_FADING \<and>
      tx_pending (snd (fade_controller_apply_immediate (Some S) now_us s)) \<and>
      next_param_index (snd (fade_controller_apply_immediate (Some S) now_us s)) = 0) \<and>
   (\<not> initialized s \<longrightarrow>
      fade_controller_apply_immediate (Some S) now_us s = (ESP_ERR_INVALID_STATE, s))"
  by (simp add: fade_controller_apply_immediate_def applyImmediate_spec_def
        fade_controller_start_def Let_def)

theorem apply_immediate_is_start_witness:
  "initialized ready_session \<and>
   fade_controller_apply_immediate (Some scene_a) 0 ready_session =
     applyImmediate_spec scene_a 0 ready_session \<and>
   fst (fade_controller_apply_immediate (Some scene_a) 0 ready_session) = ESP_OK \<and>
   current (snd (fade_controller_apply_immediate (Some scene_a) 0 ready_session)) = scene_a \<and>
   \<not> initialized zero_session \<and>
   fade_controller_apply_immediate (Some scene_a) 0 zero_session = (ESP_ERR_INVALID_STATE, zero_session)"
proof -
  have a: "initialized ready_session" by simp
  have b: "\<not> initialized zero_session" by (simp add: zero_session_def)
  note t1 = apply_immediate_is_start [of scene_a 0 ready_session]
  note t2 = apply_immediate_is_start [of scene_a 0 zero_session]
  from t1 a t2 b show ?thesis by blast
qed

text \<open>
  C7 (amended).  \<open>abort\<close> on an initialized session sets the state to IDLE and clears the
  pending flag; every other field, among them \<open>current\<close> and the round cursor
  \<open>next_param_index\<close>, keeps its value.
\<close>

theorem abort_effect:
  "initialized s \<longrightarrow>
     state (fade_controller_abort s) = FADE_STATE_IDLE \<and>
     \<not> tx_pending (fade_controller_abort s) \<and>
     current (fade_controller_abort s) = current s \<and>
     next_param_index (fade_controller_abort s) = next_param_index s \<and>
     fade_controller_abort s = s\<lparr>state := FADE_STATE_IDLE, tx_pending := False\<rparr>"
  by (simp add: fade_controller_abort_def)

theorem abort_effect_witness:
  "initialized halted_session \<and>
   state (fade_controller_abort halted_session) = FADE_STATE_IDLE \<and>
   \<not> tx_pending (fade_controller_abort halted_session) \<and>
   current (fade_controller_abort halted_session) = scene_a \<and>
   next_param_index (fade_controller_abort halted_session) = 2"
proof -
  have a: "initialized halted_session" by simp
  note t = abort_effect [of halted_session, rule_format, OF a]
  from a t show ?thesis by (simp add: halted_index)
qed

text \<open>
  C7 as the specification words it does not hold for the cursor: after the round halted at
  the third channel, \<open>abort\<close> leaves the cursor at 2.
\<close>

theorem abort_keeps_cursor_counterexample:
  "initialized halted_session \<and> state halted_session = FADE_STATE_FADING \<and>
   next_param_index halted_session = 2 \<and>
   next_param_index (fade_controller_abort halted_session) = 2"
  by (simp add: halted_index fade_controller_abort_def)


section \<open>Progress report\<close>

lemma unat_min_word: "unat (min a b) = min (unat a) (unat b)"
  by (simp add: min_def word_le_nat_alt)

text \<open>
  C9 (amended).  Before \<open>init\<close>, \<open>get_progress\<close> returns IDLE and an all-zero report.  On an
  initialized session it returns the state and a report with the state, \<open>current\<close> and the
  duration as total.  While FADING, for a clock value not before the start of the fade and
  less than \<open>2^32\<close> ms after it, the elapsed field is the elapsed time in whole milliseconds
  clamped to the duration; in general it is the 32-bit millisecond counter clamped to the
  duration.  The percentage is 100 for a zero duration and otherwise
  \<open>elapsed * 100 div total\<close> as long as that product fits 32 bits.  When COMPLETE the elapsed
  field is the total and the percentage is 100.  When IDLE the elapsed field and the
  percentage are 0.
\<close>

theorem get_progress_report:
  "(\<not> initialized s \<longrightarrow>
      fade_controller_get_progress True now_us s = (FADE_STATE_IDLE, Some zero_progress)) \<and>
   (initialized s \<longrightarrow>
     (\<exists>r. fade_controller_get_progress True now_us s = (state s, Some r) \<and>
        pr_state r = state s \<and> pr_current r = current s \<and> pr_total_ms r = duration s \<and>
        (state s = FADE_STATE_FADING \<longrightarrow>
           (fade_start_us s \<le> now_us \<and> now_us < fade_start_us s + 4294967296000 \<longrightarrow>
              unat (pr_elapsed_ms r) =
                min (nat ((now_us - fade_start_us s) div 1000)) (unat (duration s))) \<and>
           pr_elapsed_ms r = min (elapsed_ms s now_us) (duration s) \<and>
           (duration s = 0 \<longrightarrow> pr_progress_percent r = 100) \<and>
           (duration s \<noteq> 0 \<and> unat (pr_elapsed_ms r) * 100 < 2 ^ 32 \<longrightarrow>
              unat (pr_progress_percent r) =
                percent_spec False (unat (pr_elapsed_ms r)) (unat (pr_total_ms r)))) \<and>
        (state s = FADE_STATE_COMPLETE \<longrightarrow>
           pr_elapsed_ms r = duration s \<and>
           unat (pr_progress_percent r) =
             percent_spec True (unat (pr_elapsed_ms r)) (unat (pr_total_ms r))) \<and>
        (state s = FADE_STATE_IDLE \<longrightarrow> pr_elapsed_ms r = 0 \<and> pr_progress_percent r = 0)))"
proof (intro conjI impI)
  assume "\<not> initialized s"
  then show "fade_controller_get_progress True now_us s = (FADE_STATE_IDLE, Some zero_progress)"
    by (simp add: fade_controller_get_progress_def)
next
  assume i: "initialized s"
  show "\<exists>r. fade_controller_get_progress True now_us s = (state s, Some r) \<and>
        pr_state r = state s \<and> pr_current r = current s \<and> pr_total_ms r = duration s \<and>
        (state s = FADE_STATE_FADING \<longrightarrow>
           (fade_start_us s \<le> now_us \<and> now_us < fade_start_us s + 4294967296000 \<longrightarrow>
              unat (pr_elapsed_ms r) =
                min (nat ((now_us - fade_start_us s) div 1000)) (unat (duration s))) \<and>
           pr_elapsed_ms r = min (elapsed_ms s now_us) (duration s) \<and>
           (duration s = 0 \<longrightarrow> pr_progress_percent r = 100) \<and>
           (duration s \<noteq> 0 \<and> unat (pr_elapsed_ms r) * 100 < 2 ^ 32 \<longrightarrow>
              unat (pr_progress_percent r) =
                percent_spec False (unat (pr_elapsed_ms r)) (unat (pr_total_ms r)))) \<and>
        (state s = FADE_STATE_COMPLETE \<longrightarrow>
           pr_elapsed_ms r = duration s \<and>
           unat (pr_progress_percent r) =
             percent_spec True (unat (pr_elapsed_ms r)) (unat (pr_total_ms r))) \<and>
        (state s = FADE_STATE_IDLE \<longrightarrow> pr_elapsed_ms r = 0 \<and> pr_progress_percent r = 0)"
  proof (cases "state s")
    case FADE_STATE_IDLE
    then show ?thesis using i by (simp add: fade_controller_get_progress_def Let_def)
  next
    case FADE_STATE_COMPLETE
    then show ?thesis using i by (simp add: fade_controller_get_progress_def percent_spec_def Let_def)
  next
    case FADE_STATE_FADING
    let ?e = "min (elapsed_ms s now_us) (duration s)"
    have le: "?e \<le> duration s" by simp
    have e: "(if duration s < elapsed_ms s now_us then duration s else elapsed_ms s now_us) = ?e"
      by (auto simp: min_def not_less)
    have p: "duration s \<noteq> 0 \<Longrightarrow> unat ?e * 100 < 2 ^ 32 \<Longrightarrow>
      unat (ucast ((?e * 100) div duration s) :: u8) = unat ?e * 100 div unat (duration s)"
      using percent_no_wrap [OF le] by (simp add: word_greater_zero_iff)
    have t: "fade_start_us s \<le> now_us \<and> now_us < fade_start_us s + 4294967296000 \<Longrightarrow>
      unat ?e = min (nat ((now_us - fade_start_us s) div 1000)) (unat (duration s))"
      using elapsed_ms_exact [of now_us s] by (simp add: unat_min_word)
    show ?thesis using i FADE_STATE_FADING p t
      unfolding fade_controller_get_progress_def Let_def e
      by (simp add: percent_spec_def word_greater_zero_iff unat_gt_0)
  qed
qed

theorem get_progress_report_witness:
  "initialized mid_fade_session \<and> state mid_fade_session = FADE_STATE_FADING \<and>
   duration mid_fade_session = 1000 \<and>
   fade_start_us mid_fade_session \<le> 500000 \<and>
   (500000::int) < fade_start_us mid_fade_session + 4294967296000 \<and>
   map_option (unat \<circ> pr_elapsed_ms)
     (snd (fade_controller_get_progress True 500000 mid_fade_session)) =
     Some (min (nat ((500000 - fade_start_us mid_fade_session) div 1000)) 1000) \<and>
   map_option pr_elapsed_ms (snd (fade_controller_get_progress True 500000 mid_fade_session)) = Some 500 \<and>
   map_option (unat \<circ> pr_progress_percent)
     (snd (fade_controller_get_progress True 500000 mid_fade_session)) = Some 50 \<and>
   initialized ready_session \<and> state ready_session = FADE_STATE_IDLE \<and>
   map_option pr_progress_percent (snd (fade_controller_get_progress True 0 ready_session)) = Some 0 \<and>
   \<not> initialized zero_session \<and>
   fade_controller_get_progress True 0 zero_session = (FADE_STATE_IDLE, Some zero_progress)"
proof -
  have i0: "\<not> initialized zero_session" by (simp add: zero_session_def)
  note u = get_progress_report [of zero_session 0, THEN conjunct1, rule_format, OF i0]
  have i: "initialized mid_fade_session" and f: "state mid_fade_session = FADE_STATE_FADING"
    and d: "duration mid_fade_session = 1000"
    and w: "fade_start_us mid_fade_session \<le> 500000 \<and>
       (500000::int) < fade_start_us mid_fade_session + 4294967296000"
    by (simp_all add: mid_fade_session_def zero_session_def)
  from get_progress_report [of mid_fade_session 500000, THEN conjunct2, rule_format, OF i]
  obtain r where r: "fade_controller_get_progress True 500000 mid_fade_session =
      (state mid_fade_session, Some r)"
    and x: "fade_start_us mid_fade_session \<le> 500000 \<and>
       500000 < fade_start_us mid_fade_session + 4294967296000 \<longrightarrow>
       unat (pr_elapsed_ms r) =
         min (nat ((500000 - fade_start_us mid_fade_session) div 1000)) (unat (duration mid_fade_session))"
    and e: "pr_elapsed_ms r = min (elapsed_ms mid_fade_session 500000) (duration mid_fade_session)"
    and t: "pr_total_ms r = duration mid_fade_session"
    and p: "duration mid_fade_session \<noteq> 0 \<and> unat (pr_elapsed_ms r) * 100 < 2 ^ 32 \<longrightarrow>
       unat (pr_progress_percent r) =
         percent_spec False (unat (pr_elapsed_ms r)) (unat (pr_total_ms r))"
    using f by blast
  have x': "unat (pr_elapsed_ms r) =
      min (nat ((500000 - fade_start_us mid_fade_session) div 1000)) 1000"
    using x w d by simp
  have e': "pr_elapsed_ms r = 500" using e d by simp
  have "unat (pr_progress_percent r) = percent_spec False 500 1000"
    using p d t e' by simp
  then have p': "unat (pr_progress_percent r) = 50" by (simp add: percent_spec_def)
  have i2: "initialized ready_session" and f2: "state ready_session = FADE_STATE_IDLE" by simp_all
  from get_progress_report [of ready_session 0, THEN conjunct2, rule_format, OF i2]
  obtain r2 where r2: "fade_controller_get_progress True 0 ready_session = (state ready_session, Some r2)"
    and p2: "pr_progress_percent r2 = 0"
    using f2 by blast
  show ?thesis using i f d w r x' e' p' i2 f2 r2 p2 i0 u by simp
qed

text \<open>
  C9 as the specification words it does not hold in the IDLE state: after \<open>init\<close> the
  duration is 0 and the fade is not complete, so the formula gives 100, and the code
  reports 0.
\<close>

theorem get_progress_idle_counterexample:
  "state ready_session = FADE_STATE_IDLE \<and> duration ready_session = 0 \<and>
   fade_controller_get_progress True 0 ready_session =
     (FADE_STATE_IDLE, Some \<lparr>pr_state = FADE_STATE_IDLE, pr_current = zero_lighting,
        pr_elapsed_ms = 0, pr_total_ms = 0, pr_progress_percent = 0\<rparr>) \<and>
   percent_spec (state ready_session = FADE_STATE_COMPLETE) 0 0 = 100"
  by (simp add: fade_controller_get_progress_def percent_spec_def Let_def)
     (simp add: ready_session_def fade_controller_init_def zero_session_def)

text \<open>
  For a fade longer than about twelve hours the 32-bit product \<open>elapsed_ms * 100\<close> wraps:
  43000 s into a fade of 50000 s the code reports 0 percent.
\<close>

lemma get_progress_wraps:
  "map_option (\<lambda>r. (pr_elapsed_ms r, pr_progress_percent r))
     (snd (fade_controller_get_progress True 43000000000
        (mid_fade_session\<lparr>duration := 50000000\<rparr>))) = Some (43000000, 0)"
  by (simp add: fade_controller_get_progress_def Let_def elapsed_ms_def c_div_def
      mid_fade_session_def zero_session_def)

text \<open>
  The elapsed milliseconds are a 32-bit counter: \<open>2^32\<close> ms and 500 ms into a fade of one
  second the report says 500 ms and 50 percent.
\<close>

lemma get_progress_counter_wraps:
  "map_option (\<lambda>r. (pr_elapsed_ms r, pr_progress_percent r))
     (snd (fade_controller_get_progress True 4294967296500000 mid_fade_session)) = Some (500, 50)"
  by (simp add: fade_controller_get_progress_def Let_def elapsed_ms_def c_div_def
      mid_fade_session_def zero_session_def)


section \<open>Rounding and the one-second scenario\<close>





lemma scenario_session_pending [simp]:
  "tx_pending scenario_session" "next_param_index scenario_session = 0"
  by (simp_all add: scenario_session_def fade_controller_start_def Let_def)












lemma float_of_u32_510 [simp]: "float_of_u32 510 = 510"
  by (subst float_of_u32_small) simp_all













section \<open>Delivery of the end point\<close>

text \<open>
  C1.  The code does not deliver the exact target in every run.  In the 20 ms fade above,
  the tick at 10 ms sends brightness 128; the tick at 20 ms commits 255, is held back by the
  rate limit (9900 microseconds since the end of the previous burst) and nevertheless finds
  the conditions of completion satisfied.  The session is COMPLETE and the last value sent
  for brightness is 128.
\<close>

theorem final_value_not_transmitted:
  "duration_ms \<lparr>target = scene_a, duration_ms = 20\<rparr> = 20 \<and>
   snd (snd short_fade_tick1) =
     [(LIGHT_PARAM_BRIGHTNESS, 128, ESP_OK), (LIGHT_PARAM_RED, 0, ESP_OK),
      (LIGHT_PARAM_GREEN, 0, ESP_OK), (LIGHT_PARAM_BLUE, 0, ESP_OK),
      (LIGHT_PARAM_WHITE, 0, ESP_OK)] \<and>
   state (fst (snd short_fade_tick1)) = FADE_STATE_FADING \<and>
   snd (snd short_fade_tick2) = [] \<and>
   state (fst (snd short_fade_tick2)) = FADE_STATE_COMPLETE \<and>
   current (fst (snd short_fade_tick2)) = scene_a \<and>
   target_v (fst (snd short_fade_tick2)) = scene_a \<and>
   brightness scene_a = 255 \<and>
   last_transmitted (snd (snd short_fade_tick1) @ snd (snd short_fade_tick2))
     LIGHT_PARAM_BRIGHTNESS = Some 128"
proof -
  have c2: "snd (snd short_fade_tick2) = []"
    unfolding short_fade_tick2_def tick_calls using short_fade_blocked by simp
  have s2: "state (fst (snd short_fade_tick2)) = FADE_STATE_COMPLETE"
    unfolding short_fade_tick2_def
    using short_fade_blocked
    by (simp add: tick_fading short_fade_progress2 check_complete_def interpolate_fields
        all_at_target_iff interpolate_one_current)
  have v2: "current (fst (snd short_fade_tick2)) = scene_a"
    unfolding short_fade_tick2_def
    by (simp add: tick_current tick_values_def short_fade_progress2 interpolate_one_current)
  have t2: "target_v (fst (snd short_fade_tick2)) = scene_a"
    unfolding short_fade_tick2_def
    using short_fade_blocked
    by (simp add: tick_fading short_fade_progress2 check_complete_fields interpolate_fields)
  show ?thesis
    unfolding c2 s2 v2 t2 short_fade_calls1 by (simp add: scene_a_def)
qed


section \<open>Rate limit\<close>

text \<open>
  C3 (amended).  Along any run with a monotonic clock that starts no earlier than
  \<open>last_tx_us\<close>, a round being a tick that calls the sink: once the sink has accepted a
  channel in a round, every later round, fresh or resumed, begins at least 10 ms after that
  round began.
\<close>

theorem rate_limit_after_accepted_round:
  "0 \<le> t0 \<and> last_tx_us s \<le> t0 \<and> clock_ok t0 cs \<longrightarrow> spaced (rounds_of cs s)"
proof (induction cs arbitrary: s t0)
  case Nil
  show ?case by simp
next
  case (Cons c cs)
  show ?case
  proof
    assume a: "0 \<le> t0 \<and> last_tx_us s \<le> t0 \<and> clock_ok t0 (c # cs)"
    then have step: "clock_step_ok t0 c" and rest: "clock_ok (clock_after t0 c) cs" by simp_all
    have inv: "last_tx_us (do_call c s) \<le> clock_after t0 c \<and> 0 \<le> clock_after t0 c"
      using a step by (intro do_call_last_tx_clock) simp_all
    have tl: "spaced (rounds_of cs (do_call c s))"
      using Cons.IH [of "clock_after t0 c" "do_call c s"] inv rest by simp
    show "spaced (rounds_of (c # cs) s)"
    proof (cases "round_of_call c s")
      case Nil
      then show ?thesis using tl by simp
    next
      case (Cons r rs)
      then obtain snk now_us tx_us where c: "c = CallTick snk now_us tx_us"
        by (cases c) simp_all
      from Cons c have ne: "snd (snd (fade_controller_tick snk now_us tx_us s)) \<noteq> []"
        and r: "rs = []" "r = (now_us, snd (snd (fade_controller_tick snk now_us tx_us s)))"
        by (simp_all split: if_splits)
      from ne have rs: "round_starts s now_us" by (rule calls_imp_round_starts)
      have "any_accepted (snd r) \<Longrightarrow>
        list_all (\<lambda>r'. fst r + MIN_TX_INTERVAL_MS * 1000 \<le> fst r') (rounds_of cs (do_call c s))"
      proof -
        assume acc: "any_accepted (snd r)"
        have i: "initialized (do_call c s)" using rs c by (simp add: round_starts_def)
        have l: "last_tx_us (do_call c s) = tx_us" using rs acc c r by (simp add: tick_last_tx)
        have "list_all (\<lambda>r'. last_tx_us (do_call c s) + MIN_TX_INTERVAL_MS * 1000 \<le> fst r')
            (rounds_of cs (do_call c s))"
          using i rest c l by (intro rounds_after_last_tx [of _ tx_us]) simp_all
        moreover have "fst r \<le> last_tx_us (do_call c s)" using l r step c by simp
        ultimately show ?thesis by (auto simp: list_all_iff)
      qed
      then show ?thesis using Cons r tl by simp
    qed
  qed
qed

theorem rate_limit_after_accepted_round_witness:
  "(0::int) \<le> 0 \<and> last_tx_us ready_session \<le> 0 \<and> clock_ok 0 two_scene_run \<and>
   map fst (rounds_of two_scene_run ready_session) = [20000, 30050] \<and>
   map (any_accepted \<circ> snd) (rounds_of two_scene_run ready_session) = [True, True] \<and>
   spaced (rounds_of two_scene_run ready_session)"
proof -
  have h: "(0::int) \<le> 0 \<and> last_tx_us ready_session \<le> 0 \<and> clock_ok 0 two_scene_run"
    by (simp add: two_scene_run_def)
  have m: "map fst (rounds_of two_scene_run ready_session) = [20000, 30050]"
    unfolding two_scene_rounds by simp
  have a: "map (any_accepted \<circ> snd) (rounds_of two_scene_run ready_session) = [True, True]"
    unfolding two_scene_rounds by (simp add: any_accepted_def TX_ORDER_def)
  note t = rate_limit_after_accepted_round [of 0 ready_session two_scene_run, rule_format, OF h]
  from h m a t show ?thesis by blast
qed

text \<open>
  C3 as the specification words it does not hold when the node is down during a round:
  the first call is answered not-ready, \<open>last_tx_us\<close> is not updated, and the next round
  begins one microsecond later with the first channel, whether the same scene is still
  pending or another scene has been applied in between.
\<close>

theorem node_down_counterexample:
  "clock_ok 0 node_down_run \<and>
   map fst (rounds_of node_down_run ready_session) = [20000, 20001] \<and>
   map call_codes (rounds_of node_down_run ready_session) =
     [[(LIGHT_PARAM_BRIGHTNESS, ESP_ERR_INVALID_STATE)],
      [(LIGHT_PARAM_BRIGHTNESS, ESP_OK), (LIGHT_PARAM_RED, ESP_OK), (LIGHT_PARAM_GREEN, ESP_OK),
       (LIGHT_PARAM_BLUE, ESP_OK), (LIGHT_PARAM_WHITE, ESP_OK)]] \<and>
   round_begin_times (rounds_of node_down_run ready_session) = [20000, 20001] \<and>
   \<not> min_interval_apart (round_begin_times (rounds_of node_down_run ready_session)) \<and>
   clock_ok 0 node_down_restart_run \<and>
   map call_codes (rounds_of node_down_restart_run ready_session) =
     [[(LIGHT_PARAM_BRIGHTNESS, ESP_ERR_INVALID_STATE)],
      [(LIGHT_PARAM_BRIGHTNESS, ESP_OK), (LIGHT_PARAM_RED, ESP_OK), (LIGHT_PARAM_GREEN, ESP_OK),
       (LIGHT_PARAM_BLUE, ESP_OK), (LIGHT_PARAM_WHITE, ESP_OK)]] \<and>
   round_begin_times (rounds_of node_down_restart_run ready_session) = [20000, 20001] \<and>
   \<not> min_interval_apart (round_begin_times (rounds_of node_down_restart_run ready_session))"
proof -
  have f1: "snd (fade_controller_apply_immediate (Some scene_a) 0 ready_session) = applied_session"
    by (simp add: applied_session_def)
  have f2: "fst (snd (fade_controller_tick node_down 20000 20000 applied_session)) = down_session"
    by (simp add: down_session_def)
  have r1: "rounds_of node_down_run ready_session =
     [(20000, [(LIGHT_PARAM_BRIGHTNESS, 255, ESP_ERR_INVALID_STATE)]),
      (20001, map (\<lambda>p. (p, get_param scene_a p, ESP_OK)) TX_ORDER)]"
    unfolding node_down_run_def by (simp add: f1 f2 down_calls up_calls TX_ORDER_def)
  have r2: "rounds_of node_down_restart_run ready_session =
     [(20000, [(LIGHT_PARAM_BRIGHTNESS, 255, ESP_ERR_INVALID_STATE)]),
      (20001, map (\<lambda>p. (p, get_param zero_lighting p, ESP_OK)) TX_ORDER)]"
    unfolding node_down_restart_run_def by (simp add: f1 f2 down_calls restart_calls TX_ORDER_def)
  show ?thesis
    unfolding r1 r2
    by (simp add: node_down_run_def node_down_restart_run_def call_codes_def round_begin_times_def
        begins_round_def TX_ORDER_def MIN_TX_INTERVAL_MS_def)
qed


end
